theory Spec2Isabelle
  imports Complex_Main "HOL-Library.Sublist" "HOL-Library.AList"
begin

section \<open>Python values used by the execution loop\<close>

text \<open>
  The development embeds \<^verbatim>\<open>core/execution_loop.py\<close> (class \<^verbatim>\<open>AriaExecutionLoop\<close>) and the
  method \<^verbatim>\<open>AriaAgent.chat\<close> of \<^verbatim>\<open>core/agent.py\<close>.

  The code that the loop works on, file names, messages and prompts are \<^typ>\<open>string\<close>s. The
  verdicts of the deciding capability are read with \<^verbatim>\<open>strip\<close> and \<^verbatim>\<open>int\<close>, which look at the
  Unicode properties of each character; there a \<^verbatim>\<open>str\<close> is the list of its code points.

  An exception is a value: its class name and the text \<^verbatim>\<open>str(e)\<close> gives.
\<close>

datatype py_exception = PyException (exc_class: string) (exc_str: string)

text \<open>
  \<^verbatim>\<open>except Exception\<close> catches the instances of \<^verbatim>\<open>Exception\<close>. The classes of the interpreter
  that descend from \<^verbatim>\<open>BaseException\<close> only are not caught by it: the exit and interrupt
  exceptions, and \<^verbatim>\<open>asyncio.CancelledError\<close>, which arrives at an \<^verbatim>\<open>await\<close> when the task is
  cancelled.
\<close>

definition is_Exception :: "py_exception \<Rightarrow> bool" where
  "is_Exception e =
     (exc_class e \<notin> set [''BaseException'', ''CancelledError'', ''KeyboardInterrupt'',
                         ''SystemExit'', ''GeneratorExit''])"

subsection \<open>String methods\<close>

definition nl :: string where
  "nl = [CHR 0x0A]"

text \<open>\<^verbatim>\<open>pattern in code\<close> for two strings: \<^verbatim>\<open>pattern\<close> starts at some position of \<^verbatim>\<open>code\<close>.\<close>

fun contains :: "string \<Rightarrow> string \<Rightarrow> bool" where
  "contains pat [] = (pat = [])"
| "contains pat (c # cs) = (prefix pat (c # cs) \<or> contains pat cs)"

text \<open>
  The methods below do not look at what a character is, so they are written for lists of any
  kind of character.
\<close>

definition str_startswith :: "'a list \<Rightarrow> 'a list \<Rightarrow> bool" where
  "str_startswith pre s = prefix pre s"

text \<open>\<^verbatim>\<open>s.split(sep)\<close> for a separator of one character.\<close>

fun str_split :: "'a \<Rightarrow> 'a list \<Rightarrow> 'a list list" where
  "str_split sep [] = [[]]"
| "str_split sep (c # cs) =
     (if c = sep then [] # str_split sep cs
      else (case str_split sep cs of
              [] \<Rightarrow> [[c]]
            | w # ws \<Rightarrow> (c # w) # ws))"

text \<open>\<^verbatim>\<open>s.split(sep, 1)\<close>: at most one cut, at the first separator.\<close>

definition str_split1 :: "'a \<Rightarrow> 'a list \<Rightarrow> 'a list list" where
  "str_split1 sep s =
     (if sep \<in> set s
      then [takeWhile (\<lambda>c. c \<noteq> sep) s, tl (dropWhile (\<lambda>c. c \<noteq> sep) s)]
      else [s])"

text \<open>\<^verbatim>\<open>s.replace(old, new)\<close>: every occurrence of \<^verbatim>\<open>old\<close>, left to right, without overlap.\<close>

function replace_from :: "'a list \<Rightarrow> 'a list \<Rightarrow> 'a list \<Rightarrow> 'a list" where
  "replace_from old new s =
     (if s = [] then []
      else if old \<noteq> [] \<and> prefix old s then new @ replace_from old new (drop (length old) s)
      else hd s # replace_from old new (tl s))"
  by pat_completeness auto
termination
  by (relation "measure (\<lambda>(old, new, s). length s)") auto

definition str_replace :: "'a list \<Rightarrow> 'a list \<Rightarrow> 'a list \<Rightarrow> 'a list" where
  "str_replace old new s =
     (if old = [] then new @ concat (map (\<lambda>c. c # new) s) else replace_from old new s)"

fun str_join :: "'a list \<Rightarrow> 'a list list \<Rightarrow> 'a list" where
  "str_join sep [] = []"
| "str_join sep [x] = x"
| "str_join sep (x # y # ys) = x @ sep @ str_join sep (y # ys)"

definition char_lower :: "char \<Rightarrow> char" where
  "char_lower c =
     (if 65 \<le> (of_char c :: nat) \<and> (of_char c :: nat) \<le> 90
      then char_of ((of_char c :: nat) + 32) else c)"

definition str_lower :: "string \<Rightarrow> string" where
  "str_lower s = map char_lower s"

text \<open>\<^verbatim>\<open>str(n)\<close> for a natural number and for an integer.\<close>

function str_nat :: "nat \<Rightarrow> string" where
  "str_nat n =
     (if n < 10 then [char_of (48 + n)] else str_nat (n div 10) @ [char_of (48 + n mod 10)])"
  by pat_completeness auto
termination
  by (relation "measure id") auto

definition str_int :: "int \<Rightarrow> string" where
  "str_int i = (if i < 0 then CHR ''-'' # str_nat (nat (- i)) else str_nat (nat i))"

subsection \<open>Text as code points: blanks, digits and \<^verbatim>\<open>int\<close>\<close>

type_synonym ustr = "nat list"

text \<open>A literal of the source (ASCII) as code points.\<close>

definition lit :: "string \<Rightarrow> ustr" where
  "lit s = map of_char s"

text \<open>The code points for which \<^verbatim>\<open>str.isspace\<close> holds; \<^verbatim>\<open>strip()\<close> and \<^verbatim>\<open>int\<close> drop them.\<close>

definition py_isspace :: "nat \<Rightarrow> bool" where
  "py_isspace c =
     (c \<in> set [0x09, 0x0A, 0x0B, 0x0C, 0x0D, 0x1C, 0x1D, 0x1E, 0x1F, 0x20, 0x85, 0xA0, 0x1680,
               0x2000, 0x2001, 0x2002, 0x2003, 0x2004, 0x2005, 0x2006, 0x2007, 0x2008, 0x2009,
               0x200A, 0x2028, 0x2029, 0x202F, 0x205F, 0x3000])"

definition str_strip :: "ustr \<Rightarrow> ustr" where
  "str_strip s = rev (dropWhile py_isspace (rev (dropWhile py_isspace s)))"

text \<open>
  What \<^verbatim>\<open>int\<close> needs of the interpreter: the value of a code point as a decimal digit (the
  characters of Unicode category Nd) and the limit on the number of digits
  (\<^verbatim>\<open>sys.get_int_max_str_digits()\<close>; 0 means no limit).
\<close>

record interpreter =
  decimal :: "nat \<Rightarrow> nat option"
  int_max_str_digits :: nat

text \<open>
  The digits of a number after the first one: decimal digits, with single underscores
  allowed between two digits. The result is the value and the number of digits read.
\<close>

fun parse_digits :: "(nat \<Rightarrow> nat option) \<Rightarrow> ustr \<Rightarrow> nat \<Rightarrow> nat \<Rightarrow> (nat \<times> nat) option" where
  "parse_digits dec [] acc k = Some (acc, k)"
| "parse_digits dec (c # cs) acc k =
     (case dec c of
        Some d \<Rightarrow> parse_digits dec cs (10 * acc + d) (Suc k)
      | None \<Rightarrow>
          if c = 0x5F then
            (case cs of
               [] \<Rightarrow> None
             | c' # cs' \<Rightarrow>
                 (case dec c' of
                    Some d \<Rightarrow> parse_digits dec cs' (10 * acc + d) (Suc k)
                  | None \<Rightarrow> None))
          else None)"

text \<open>
  \<^verbatim>\<open>int\<close> drops blanks at both ends as well, but its own: of the characters below 127 only
  the tab, the line feed, the vertical tab, the form feed, the carriage return and the space.
  The four separators \<^verbatim>\<open>0x1C\<close> to \<^verbatim>\<open>0x1F\<close>, which \<^verbatim>\<open>strip()\<close> drops, make \<^verbatim>\<open>int\<close> raise.
\<close>

definition int_blank :: "nat \<Rightarrow> bool" where
  "int_blank c = (py_isspace c \<and> c \<notin> set [0x1C, 0x1D, 0x1E, 0x1F])"

text \<open>
  \<^verbatim>\<open>int(s)\<close> for a string: surrounding blanks are dropped, one sign may lead, at least one
  digit follows, and a number of more than 640 digits that is over the limit is refused.
  \<^const>\<open>None\<close> is Python's \<^verbatim>\<open>ValueError\<close>.
\<close>

definition py_int :: "interpreter \<Rightarrow> ustr \<Rightarrow> int option" where
  "py_int py s =
     (let t = rev (dropWhile int_blank (rev (dropWhile int_blank s)));
          neg = (t \<noteq> [] \<and> hd t = 0x2D);
          body = (if t \<noteq> [] \<and> (hd t = 0x2D \<or> hd t = 0x2B) then tl t else t)
      in case body of
           [] \<Rightarrow> None
         | c # cs \<Rightarrow>
             (case decimal py c of
                None \<Rightarrow> None
              | Some d \<Rightarrow>
                  (case parse_digits (decimal py) cs d 1 of
                     None \<Rightarrow> None
                   | Some (n, k) \<Rightarrow>
                       if 640 < k \<and> 0 < int_max_str_digits py \<and> int_max_str_digits py < k
                       then None
                       else Some (if neg then - int n else int n))))"

text \<open>
  The interpreter of the examples: CPython 3.11 with Unicode 14.0. Its decimal digits come
  in runs of ten; the list names the zero of each run.
\<close>

definition nd_zeros :: "nat list" where
  "nd_zeros =
     [48, 1632, 1776, 1984, 2406, 2534, 2662, 2790, 2918, 3046, 3174, 3302, 3430, 3558, 3664,
      3792, 3872, 4160, 4240, 6112, 6160, 6470, 6608, 6784, 6800, 6992, 7088, 7232, 7248,
      42528, 43216, 43264, 43472, 43504, 43600, 44016, 65296, 66720, 68912, 69734, 69872,
      69942, 70096, 70384, 70736, 70864, 71248, 71360, 71472, 71904, 72016, 72784, 73040,
      73120, 92768, 92864, 93008, 120782, 120792, 120802, 120812, 120822, 123200, 123632,
      125264, 130032]"

definition unicode_decimal :: "nat \<Rightarrow> nat option" where
  "unicode_decimal c =
     (case filter (\<lambda>z. z \<le> c \<and> c < z + 10) nd_zeros of
        [] \<Rightarrow> None
      | z # _ \<Rightarrow> Some (c - z))"

definition cpython_3_11 :: interpreter where
  "cpython_3_11 = \<lparr>decimal = unicode_decimal, int_max_str_digits = 4300\<rparr>"

section \<open>Security scan\<close>

record vulnerability =
  v_pattern :: string
  v_message :: string
  v_severity :: string

definition dangerous_patterns :: "(string \<times> string) list" where
  "dangerous_patterns =
     [(''exec('', ''Use of exec is dangerous''),
      (''eval('', ''Use of eval is dangerous''),
      (''__import__'', ''Dynamic imports can be dangerous''),
      (''os.system'', ''Direct system calls are dangerous''),
      (''subprocess.call(shell=True'', ''Shell injection vulnerability''),
      (''pickle.loads'', ''Pickle can execute arbitrary code''),
      (''yaml.load('', ''Use yaml.safe_load instead'')]"

text \<open>The \<^verbatim>\<open>for pattern, message in dangerous_patterns\<close> loop, appending to \<^verbatim>\<open>vulnerabilities\<close>.\<close>

fun scan_patterns ::
  "(string \<times> string) list \<Rightarrow> string \<Rightarrow> vulnerability list \<Rightarrow> vulnerability list" where
  "scan_patterns [] code vulnerabilities = vulnerabilities"
| "scan_patterns ((pat, msg) # rest) code vulnerabilities =
     scan_patterns rest code
       (if contains pat code
        then vulnerabilities @ [\<lparr>v_pattern = pat, v_message = msg, v_severity = ''high''\<rparr>]
        else vulnerabilities)"

text \<open>\<^verbatim>\<open>security_scan\<close> returns a dict with the one key \<^verbatim>\<open>vulnerabilities\<close>; the model returns its value.\<close>

definition security_scan :: "string \<Rightarrow> vulnerability list" where
  "security_scan code = scan_patterns dangerous_patterns code []"

section \<open>The chat capability\<close>

text \<open>
  What \<^verbatim>\<open>await aria_agent.chat(prompt)\<close> can give back: a \<^verbatim>\<open>str\<close>, a mapping (the fix methods
  read its \<^verbatim>\<open>"response"\<close> entry), or \<^verbatim>\<open>None\<close>; or the call raises.

  Every prompt of the source is an f-string with a fixed text; the model keeps which prompt it is
  (the constructor) and the interpolated values, in the order of the f-string.
\<close>

datatype reply = Str string | Dict "(string \<times> string) list" | NoneVal

datatype prompt =
    FixSyntaxPrompt string string
  | FixRuntimePrompt string string string
  | FixTestsPrompt string string
  | FixSecurityPrompt string string
  | GenerateTestsPrompt string string
  | AnalysisPrompt ustr string

type_synonym chat = "prompt \<Rightarrow> py_exception + reply"

text \<open>
  \<^verbatim>\<open>AriaAgent.chat\<close> (core/agent.py): the awaited call of the model client sits in a \<^verbatim>\<open>try\<close>
  with \<^verbatim>\<open>except Exception as e\<close>; when the call raises an instance of \<^verbatim>\<open>Exception\<close>, the method
  returns the text \<^verbatim>\<open>f"Error: {str(e)}"\<close> in place of a response, and any other exception
  leaves the method.
\<close>

definition AriaAgent_chat :: "(prompt \<Rightarrow> py_exception + string) \<Rightarrow> chat" where
  "AriaAgent_chat client user_message =
     (case client user_message of
        Inr response \<Rightarrow> Inr (Str response)
      | Inl e \<Rightarrow> if is_Exception e then Inr (Str (''Error: '' @ exc_str e)) else Inl e)"

section \<open>Validators\<close>

record syntax_error =
  se_line :: "int option"
  se_message :: string
  se_text :: "string option"

record syntax_result =
  valid :: bool
  errors :: "syntax_error list"

text \<open>
  \<^verbatim>\<open>ast.parse(code)\<close> returns a tree, raises \<^verbatim>\<open>SyntaxError\<close> (with \<^verbatim>\<open>lineno\<close>, \<^verbatim>\<open>msg\<close>, \<^verbatim>\<open>text\<close>),
  or raises an exception of another class: \<^verbatim>\<open>MemoryError\<close> or \<^verbatim>\<open>RecursionError\<close> for a source
  that is nested too deeply for the parser or for the construction of the tree.
\<close>

datatype parse_outcome =
    Parsed
  | RaisesSyntaxError "int option" string "string option"
  | RaisesOther py_exception

definition validate_syntax ::
  "(string \<Rightarrow> parse_outcome) \<Rightarrow> string \<Rightarrow> py_exception + syntax_result" where
  "validate_syntax ast_parse code =
     (case ast_parse code of
        Parsed \<Rightarrow> Inr \<lparr>valid = True, errors = []\<rparr>
      | RaisesSyntaxError lineno msg text \<Rightarrow>
          Inr \<lparr>valid = False,
               errors = [\<lparr>se_line = lineno, se_message = msg, se_text = text\<rparr>]\<rparr>
      | RaisesOther e \<Rightarrow> Inl e)"

record issue =
  i_type :: string
  i_message :: string

type_synonym formatter = "string \<Rightarrow> py_exception + string"

text \<open>Both formatter calls of \<^verbatim>\<open>static_analysis\<close> sit in a \<^verbatim>\<open>try\<close> with a bare \<^verbatim>\<open>except: pass\<close>.\<close>

definition static_analysis :: "formatter \<Rightarrow> formatter \<Rightarrow> string \<Rightarrow> issue list" where
  "static_analysis black_format_str autopep8_fix_code code =
     (let issues = [];
          issues = (case black_format_str code of
                      Inr formatted_code \<Rightarrow>
                        if formatted_code \<noteq> code
                        then issues @ [\<lparr>i_type = ''formatting'', i_message = ''Code needs formatting''\<rparr>]
                        else issues
                    | Inl _ \<Rightarrow> issues);
          issues = (case autopep8_fix_code code of
                      Inr pep8_code \<Rightarrow>
                        if pep8_code \<noteq> code
                        then issues @ [\<lparr>i_type = ''style'', i_message = ''PEP8 style issues''\<rparr>]
                        else issues
                    | Inl _ \<Rightarrow> issues)
      in issues)"

section \<open>Fix requests\<close>

definition str_opt_int :: "int option \<Rightarrow> string" where
  "str_opt_int v = (case v of None \<Rightarrow> ''None'' | Some i \<Rightarrow> str_int i)"

definition quoted :: "string \<Rightarrow> string" where
  "quoted s = [CHR 0x27] @ s @ [CHR 0x27]"

text \<open>\<^verbatim>\<open>result if isinstance(result, str) else result.get("response", code)\<close>\<close>

definition fixed_code :: "reply \<Rightarrow> string \<Rightarrow> py_exception + string" where
  "fixed_code result code =
     (case result of
        Str s \<Rightarrow> Inr s
      | Dict d \<Rightarrow> Inr (case map_of d ''response'' of Some v \<Rightarrow> v | None \<Rightarrow> code)
      | NoneVal \<Rightarrow>
          Inl (PyException ''AttributeError''
                 (quoted ''NoneType'' @ '' object has no attribute '' @ quoted ''get'')))"

definition fix_syntax :: "chat \<Rightarrow> string \<Rightarrow> syntax_error list \<Rightarrow> py_exception + string" where
  "fix_syntax aria_agent code errs =
     (let error_description =
            str_join nl (map (\<lambda>e. ''Line '' @ str_opt_int (se_line e) @ '': '' @ se_message e) errs)
      in case aria_agent (FixSyntaxPrompt error_description code) of
           Inl e \<Rightarrow> Inl e
         | Inr result \<Rightarrow> fixed_code result code)"

definition fix_runtime_errors ::
  "chat \<Rightarrow> string \<Rightarrow> string \<Rightarrow> string \<Rightarrow> py_exception + string" where
  "fix_runtime_errors aria_agent code errs task =
     (case aria_agent (FixRuntimePrompt task errs code) of
        Inl e \<Rightarrow> Inl e
      | Inr result \<Rightarrow> fixed_code result code)"

definition fix_test_failures :: "chat \<Rightarrow> string \<Rightarrow> string list \<Rightarrow> py_exception + string" where
  "fix_test_failures aria_agent code failures =
     (let failures_text = str_join nl failures
      in case aria_agent (FixTestsPrompt failures_text code) of
           Inl e \<Rightarrow> Inl e
         | Inr result \<Rightarrow> fixed_code result code)"

definition fix_security_issues ::
  "chat \<Rightarrow> string \<Rightarrow> vulnerability list \<Rightarrow> py_exception + string" where
  "fix_security_issues aria_agent code vulnerabilities =
     (let vuln_text = str_join nl (map (\<lambda>v. v_pattern v @ '': '' @ v_message v) vulnerabilities)
      in case aria_agent (FixSecurityPrompt vuln_text code) of
           Inl e \<Rightarrow> Inl e
         | Inr result \<Rightarrow> fixed_code result code)"

text \<open>
  \<^verbatim>\<open>fix_static_issues\<close> takes the agent and the issues and uses neither ("For now,
  auto-format"): it formats with black, then autopep8, inside one \<^verbatim>\<open>try\<close> with a bare
  \<^verbatim>\<open>except: pass\<close>, so the code keeps the value of the last assignment that went through.
\<close>

definition fix_static_issues ::
  "formatter \<Rightarrow> formatter \<Rightarrow> chat \<Rightarrow> string \<Rightarrow> issue list \<Rightarrow> string" where
  "fix_static_issues black_format_str autopep8_fix_code aria_agent code issues =
     (case black_format_str code of
        Inl _ \<Rightarrow> code
      | Inr formatted \<Rightarrow>
          (case autopep8_fix_code formatted of
             Inl _ \<Rightarrow> formatted
           | Inr fixed \<Rightarrow> fixed))"

section \<open>The world outside and the state of the loop\<close>

type_synonym path = string

text \<open>
  \<^verbatim>\<open>subprocess.run(..., timeout=t)\<close> returns a completed process (return code, stdout, stderr),
  raises \<^verbatim>\<open>TimeoutExpired\<close> (kept with its \<^verbatim>\<open>str(e)\<close>), or raises something else.
\<close>

datatype run_outcome =
    Completed int string string
  | TimeoutExpired string
  | RunRaises py_exception

text \<open>
  The container calls of \<^verbatim>\<open>execute_in_docker\<close>: the container exits with a status code and
  logs; or \<^verbatim>\<open>container.wait(timeout=10)\<close> raises because the ten seconds are over; or another
  call (\<^verbatim>\<open>containers.run\<close>, \<^verbatim>\<open>logs\<close>, \<^verbatim>\<open>remove\<close>) raises.
\<close>

datatype docker_outcome =
    Exited int string
  | WaitTimeout py_exception
  | DockerRaises py_exception

text \<open>
  A \<open>world\<close> is how the libraries, the operating system and the agent answer during one
  iteration of the loop. Files are looked at through their text: a program run on a file sees
  what the file holds.
\<close>

record world =
  ast_parse :: "string \<Rightarrow> parse_outcome"
  black_format_str :: formatter
  autopep8_fix_code :: formatter
  aria_agent :: chat
  temp_file_name :: path
  temp_dir_name :: path
  write_raises :: "path \<Rightarrow> string \<Rightarrow> py_exception option"
  run_python :: "path \<Rightarrow> string option \<Rightarrow> run_outcome"
  elapsed :: real
  docker_python :: "path \<Rightarrow> string option \<Rightarrow> docker_outcome"
  run_pytest :: "path \<Rightarrow> string option \<Rightarrow> string option \<Rightarrow> run_outcome"

datatype gate = Syntax | Static | Execution | Tests | Security

datatype event = Checked gate bool | Fix gate

text \<open>
  The state: the attributes of the \<^verbatim>\<open>AriaExecutionLoop\<close> object that the loop reads and writes,
  the temporary files and directories that exist, and the trace, which records in program order
  each gate that was evaluated, with its verdict (\<^const>\<open>True\<close> when the gate let the code
  through), and each call of a fix method.
\<close>

record state =
  docker_client :: bool
  fix_attempts :: nat
  max_fix_attempts :: nat
  files :: "path \<rightharpoonup> string"
  trace :: "event list"

text \<open>\<^verbatim>\<open>__init__\<close>: \<^verbatim>\<open>try_docker\<close> leaves a client or \<^verbatim>\<open>None\<close>; the budget is ten.\<close>

definition init :: "bool \<Rightarrow> (path \<rightharpoonup> string) \<Rightarrow> state" where
  "init docker_available fs =
     \<lparr>docker_client = docker_available, fix_attempts = 0, max_fix_attempts = 10,
      files = fs, trace = []\<rparr>"

definition log :: "event \<Rightarrow> state \<Rightarrow> state" where
  "log e s = s\<lparr>trace := trace s @ [e]\<rparr>"

section \<open>Sandbox execution\<close>

record exec_result =
  success :: bool
  exec_output :: "string option"
  exec_errors :: "string option"
  time :: "real option"

definition execute_in_subprocess :: "world \<Rightarrow> state \<Rightarrow> path \<Rightarrow> exec_result" where
  "execute_in_subprocess w s filepath =
     (case run_python w filepath (files s filepath) of
        Completed returncode out err \<Rightarrow>
          if returncode = 0
          then \<lparr>success = True, exec_output = Some out, exec_errors = None, time = Some (elapsed w)\<rparr>
          else \<lparr>success = False, exec_output = Some out, exec_errors = Some err, time = None\<rparr>
      | TimeoutExpired _ \<Rightarrow>
          \<lparr>success = False, exec_output = None,
           exec_errors = Some ''Code execution timeout (infinite loop?)'', time = None\<rparr>
      | RunRaises e \<Rightarrow>
          \<lparr>success = False, exec_output = None, exec_errors = Some (exc_str e), time = None\<rparr>)"

definition docker_failed :: "py_exception \<Rightarrow> exec_result" where
  "docker_failed e =
     \<lparr>success = False, exec_output = None,
      exec_errors = Some (''Docker execution failed: '' @ exc_str e), time = None\<rparr>"

definition execute_in_docker :: "world \<Rightarrow> state \<Rightarrow> path \<Rightarrow> exec_result" where
  "execute_in_docker w s filepath =
     (case docker_python w filepath (files s filepath) of
        Exited status_code logs \<Rightarrow>
          \<lparr>success = (status_code = 0),
           exec_output = Some (if status_code = 0 then logs else []),
           exec_errors = Some (if status_code \<noteq> 0 then logs else []),
           time = None\<rparr>
      | WaitTimeout e \<Rightarrow> docker_failed e
      | DockerRaises e \<Rightarrow> docker_failed e)"

text \<open>
  \<^verbatim>\<open>execute_code\<close>: the temporary file is created with \<^verbatim>\<open>delete=False\<close> and written inside the
  \<^verbatim>\<open>with\<close> block; the \<^verbatim>\<open>try ... finally: unlink\<close> starts after that block.
\<close>

definition execute_code ::
  "world \<Rightarrow> state \<Rightarrow> string \<Rightarrow> string \<Rightarrow> state \<times> (py_exception + exec_result)" where
  "execute_code w s code filename =
     (let temp_path = temp_file_name w;
          s = s\<lparr>files := (files s)(temp_path \<mapsto> [])\<rparr>
      in case write_raises w temp_path code of
           Some e \<Rightarrow> (s, Inl e)
         | None \<Rightarrow>
             (let s = s\<lparr>files := (files s)(temp_path \<mapsto> code)\<rparr>;
                  result = (if docker_client s then execute_in_docker w s temp_path
                            else execute_in_subprocess w s temp_path)
              in (s\<lparr>files := (files s)(temp_path := None)\<rparr>, Inr result)))"

section \<open>Generated tests\<close>

definition generate_tests :: "chat \<Rightarrow> string \<Rightarrow> string \<Rightarrow> py_exception + reply" where
  "generate_tests agent code task = agent (GenerateTestsPrompt (take 1000 code) task)"

record test_result =
  all_pass :: bool
  tests_count :: nat
  failures :: "string list option"
  tests_output :: "string option"

text \<open>Python's truth value of a reply: an empty string, an empty mapping and \<^verbatim>\<open>None\<close> are false.\<close>

definition truthy :: "reply \<Rightarrow> bool" where
  "truthy r = (case r of Str s \<Rightarrow> s \<noteq> [] | Dict d \<Rightarrow> d \<noteq> [] | NoneVal \<Rightarrow> False)"

definition under :: "path \<Rightarrow> path \<Rightarrow> bool" where
  "under d p = (p = d \<or> prefix (d @ ''/'') p)"

text \<open>Leaving \<^verbatim>\<open>with tempfile.TemporaryDirectory()\<close> removes the directory and all below it.\<close>

definition cleanup :: "path \<Rightarrow> (path \<rightharpoonup> string) \<Rightarrow> (path \<rightharpoonup> string)" where
  "cleanup d fs = (\<lambda>p. if under d p then None else fs p)"

definition pytest_result :: "run_outcome \<Rightarrow> test_result" where
  "pytest_result r =
     (case r of
        Completed returncode out err \<Rightarrow>
          (let passing = (returncode = 0);
               fails = (if \<not> passing then filter (contains ''FAILED'') (str_split (CHR 0x0A) out)
                        else [])
           in \<lparr>all_pass = passing,
               tests_count =
                 length (filter (\<lambda>l. contains ''passed'' (str_lower l)) (str_split (CHR 0x0A) out)),
               failures = Some fails,
               tests_output = Some out\<rparr>)
      | TimeoutExpired msg \<Rightarrow>
          \<lparr>all_pass = False, tests_count = 0, failures = Some [msg], tests_output = None\<rparr>
      | RunRaises e \<Rightarrow>
          \<lparr>all_pass = False, tests_count = 0, failures = Some [exc_str e], tests_output = None\<rparr>)"

text \<open>
  The body of the \<^verbatim>\<open>with\<close> block of \<^verbatim>\<open>run_tests\<close>: the two \<^verbatim>\<open>write_text\<close> calls come before the
  \<^verbatim>\<open>try\<close>, and \<^verbatim>\<open>write_text\<close> of a value that is not a \<^verbatim>\<open>str\<close> raises \<^verbatim>\<open>TypeError\<close>.
\<close>

definition run_tests_in ::
  "world \<Rightarrow> state \<Rightarrow> path \<Rightarrow> string \<Rightarrow> reply \<Rightarrow> state \<times> (py_exception + test_result)" where
  "run_tests_in w s tmpdir code tests =
     (let module_path = tmpdir @ ''/module.py'';
          test_path = tmpdir @ ''/test_module.py''
      in case write_raises w module_path code of
           Some e \<Rightarrow> (s, Inl e)
         | None \<Rightarrow>
             (let s = s\<lparr>files := (files s)(module_path \<mapsto> code)\<rparr>
              in case tests of
                   Str t \<Rightarrow>
                     (case write_raises w test_path t of
                        Some e \<Rightarrow> (s, Inl e)
                      | None \<Rightarrow>
                          (let s = s\<lparr>files := (files s)(test_path \<mapsto> t)\<rparr>
                           in (s, Inr (pytest_result
                                 (run_pytest w test_path (files s module_path) (files s test_path))))))
                 | _ \<Rightarrow> (s, Inl (PyException ''TypeError'' ''data must be str, not dict''))))"

definition run_tests ::
  "world \<Rightarrow> state \<Rightarrow> string \<Rightarrow> reply \<Rightarrow> state \<times> (py_exception + test_result)" where
  "run_tests w s code tests =
     (if \<not> truthy tests
      then (s, Inr \<lparr>all_pass = True, tests_count = 0, failures = None, tests_output = None\<rparr>)
      else
        (let tmpdir = temp_dir_name w;
             s = s\<lparr>files := (files s)(tmpdir \<mapsto> [])\<rparr>
         in case run_tests_in w s tmpdir code tests of
              (s, r) \<Rightarrow> (s\<lparr>files := cleanup tmpdir (files s)\<rparr>, r)))"

section \<open>The perfect loop\<close>

record file_info =
  filename :: string
  content :: string

record loop_result =
  r_filename :: string
  r_content :: string
  r_status :: string
  r_iterations :: nat
  r_tests_passed :: "nat option"
  r_execution_time :: "real option"
  r_security :: "string option"

text \<open>
  One pass through the body of the \<^verbatim>\<open>while\<close> ends in one of three ways: the \<^verbatim>\<open>return\<close> of
  the perfect result, a \<^verbatim>\<open>continue\<close> with the new code, or an exception that nothing catches.
\<close>

datatype step = Perfect loop_result | Retry string | Raised py_exception

definition key_error :: "string \<Rightarrow> py_exception" where
  "key_error k = PyException ''KeyError'' (quoted k)"

text \<open>
  \<^verbatim>\<open>code = await self.fix_...(...)\<close>, \<^verbatim>\<open>self.fix_attempts += 1\<close>, \<^verbatim>\<open>continue\<close>: the last three
  lines of every failing gate. The call is in the trace whether it returns or raises; a gate
  is in the trace once it has returned its result.
\<close>

definition fix_and_continue :: "gate \<Rightarrow> state \<Rightarrow> py_exception + string \<Rightarrow> state \<times> step" where
  "fix_and_continue g s fixed =
     (case fixed of
        Inl e \<Rightarrow> (log (Fix g) s, Raised e)
      | Inr code \<Rightarrow> ((log (Fix g) s)\<lparr>fix_attempts := fix_attempts s + 1\<rparr>, Retry code))"

definition security_step ::
  "world \<Rightarrow> state \<Rightarrow> string \<Rightarrow> string \<Rightarrow> exec_result \<Rightarrow> test_result \<Rightarrow> state \<times> step" where
  "security_step w s fname code exec_res test_res =
     (let vulnerabilities = security_scan code;
          s = log (Checked Security (vulnerabilities = [])) s
      in if vulnerabilities \<noteq> []
         then fix_and_continue Security s (fix_security_issues (aria_agent w) code vulnerabilities)
         else (s, Perfect
                 \<lparr>r_filename = fname, r_content = code, r_status = ''perfect'',
                  r_iterations = fix_attempts s,
                  r_tests_passed = Some (tests_count test_res),
                  r_execution_time = time exec_res,
                  r_security = Some ''clean''\<rparr>))"

definition tests_step ::
  "world \<Rightarrow> state \<Rightarrow> string \<Rightarrow> string \<Rightarrow> string \<Rightarrow> exec_result \<Rightarrow> state \<times> step" where
  "tests_step w s fname task code exec_res =
     (case generate_tests (aria_agent w) code task of
        Inl e \<Rightarrow> (s, Raised e)
      | Inr tests \<Rightarrow>
          (case run_tests w s code tests of
             (s, Inl e) \<Rightarrow> (s, Raised e)
           | (s, Inr test_res) \<Rightarrow>
               (let s = log (Checked Tests (all_pass test_res)) s
                in if \<not> all_pass test_res
                   then (case failures test_res of
                           None \<Rightarrow> (s, Raised (key_error ''failures''))
                         | Some fails \<Rightarrow>
                             fix_and_continue Tests s
                               (fix_test_failures (aria_agent w) code fails))
                   else security_step w s fname code exec_res test_res)))"

definition execution_step ::
  "world \<Rightarrow> state \<Rightarrow> string \<Rightarrow> string \<Rightarrow> string \<Rightarrow> state \<times> step" where
  "execution_step w s fname task code =
     (case execute_code w s code fname of
        (s, Inl e) \<Rightarrow> (s, Raised e)
      | (s, Inr exec_res) \<Rightarrow>
          (let s = log (Checked Execution (success exec_res)) s
           in if \<not> success exec_res
              then (case exec_errors exec_res of
                      None \<Rightarrow> (s, Raised (key_error ''errors''))
                    | Some errs \<Rightarrow>
                        fix_and_continue Execution s
                          (fix_runtime_errors (aria_agent w) code errs task))
              else tests_step w s fname task code exec_res))"

definition static_step ::
  "world \<Rightarrow> state \<Rightarrow> string \<Rightarrow> string \<Rightarrow> string \<Rightarrow> state \<times> step" where
  "static_step w s fname task code =
     (let issues = static_analysis (black_format_str w) (autopep8_fix_code w) code;
          s = log (Checked Static (issues = [])) s
      in if issues \<noteq> []
         then fix_and_continue Static s
                (Inr (fix_static_issues (black_format_str w) (autopep8_fix_code w)
                        (aria_agent w) code issues))
         else execution_step w s fname task code)"

definition iteration ::
  "world \<Rightarrow> state \<Rightarrow> string \<Rightarrow> string \<Rightarrow> string \<Rightarrow> state \<times> step" where
  "iteration w s fname task code =
     (case validate_syntax (ast_parse w) code of
        Inl e \<Rightarrow> (s, Raised e)
      | Inr syntax_res \<Rightarrow>
          (let s = log (Checked Syntax (valid syntax_res)) s
           in if \<not> valid syntax_res
              then fix_and_continue Syntax s
                     (fix_syntax (aria_agent w) code (errors syntax_res))
              else static_step w s fname task code))"

subsection \<open>What one pass leaves of the counters\<close>

lemma log_fields [simp]:
  "fix_attempts (log e s) = fix_attempts s"
  "max_fix_attempts (log e s) = max_fix_attempts s"
  "docker_client (log e s) = docker_client s"
  "files (log e s) = files s"
  "trace (log e s) = trace s @ [e]"
  by (simp_all add: log_def)

lemma execute_code_frame:
  assumes "execute_code w s code fname = (s', r)"
  shows "fix_attempts s' = fix_attempts s \<and> max_fix_attempts s' = max_fix_attempts s
         \<and> docker_client s' = docker_client s \<and> trace s' = trace s"
  using assms by (auto simp: execute_code_def Let_def split: option.splits)

lemma run_tests_in_frame:
  assumes "run_tests_in w s d code tests = (s', r)"
  shows "fix_attempts s' = fix_attempts s \<and> max_fix_attempts s' = max_fix_attempts s
         \<and> docker_client s' = docker_client s \<and> trace s' = trace s"
  using assms by (auto simp: run_tests_in_def Let_def split: option.splits reply.splits)

lemma run_tests_frame:
  assumes "run_tests w s code tests = (s', r)"
  shows "fix_attempts s' = fix_attempts s \<and> max_fix_attempts s' = max_fix_attempts s
         \<and> docker_client s' = docker_client s \<and> trace s' = trace s"
  using assms
  by (auto simp: run_tests_def Let_def split: if_splits prod.splits dest!: run_tests_in_frame)

lemma fix_and_continue_retry:
  assumes "fix_and_continue g s r = (s', Retry c)"
  shows "fix_attempts s' = Suc (fix_attempts s) \<and> max_fix_attempts s' = max_fix_attempts s"
  using assms by (auto simp: fix_and_continue_def split: sum.splits)

lemma security_step_retry:
  assumes "security_step w s f code er tr = (s', Retry c)"
  shows "fix_attempts s' = Suc (fix_attempts s) \<and> max_fix_attempts s' = max_fix_attempts s"
  using assms
  by (auto simp: security_step_def Let_def split: if_splits dest!: fix_and_continue_retry)

lemma tests_step_retry:
  assumes "tests_step w s f task code er = (s', Retry c)"
  shows "fix_attempts s' = Suc (fix_attempts s) \<and> max_fix_attempts s' = max_fix_attempts s"
  using assms
  by (auto simp: tests_step_def Let_def split: if_splits sum.splits prod.splits option.splits
      dest!: fix_and_continue_retry security_step_retry run_tests_frame)

lemma execution_step_retry:
  assumes "execution_step w s f task code = (s', Retry c)"
  shows "fix_attempts s' = Suc (fix_attempts s) \<and> max_fix_attempts s' = max_fix_attempts s"
  using assms
  by (auto simp: execution_step_def Let_def split: if_splits sum.splits prod.splits option.splits
      dest!: fix_and_continue_retry tests_step_retry execute_code_frame)

lemma static_step_retry:
  assumes "static_step w s f task code = (s', Retry c)"
  shows "fix_attempts s' = Suc (fix_attempts s) \<and> max_fix_attempts s' = max_fix_attempts s"
  using assms
  by (auto simp: static_step_def Let_def split: if_splits
      dest!: fix_and_continue_retry execution_step_retry)

lemma iteration_retry:
  assumes "iteration w s f task code = (s', Retry c)"
  shows "fix_attempts s' = Suc (fix_attempts s) \<and> max_fix_attempts s' = max_fix_attempts s"
  using assms
  by (auto simp: iteration_def Let_def split: if_splits sum.splits
      dest!: fix_and_continue_retry static_step_retry)

subsection \<open>The while loop\<close>

text \<open>
  \<^verbatim>\<open>while self.fix_attempts < self.max_fix_attempts\<close>. The environment gives the world of each
  iteration, numbered by the value of \<^verbatim>\<open>fix_attempts\<close> at its start. The loop is a total
  function: each \<^verbatim>\<open>continue\<close> has raised the counter by one under an unchanged budget.
\<close>

function perfect_while ::
  "(nat \<Rightarrow> world) \<Rightarrow> state \<Rightarrow> string \<Rightarrow> string \<Rightarrow> string
     \<Rightarrow> state \<times> (py_exception + loop_result)" where
  "perfect_while env s fname task code =
     (if fix_attempts s < max_fix_attempts s
      then (case iteration (env (fix_attempts s)) s fname task code of
              (s', Perfect res) \<Rightarrow> (s', Inr res)
            | (s', Retry code') \<Rightarrow> perfect_while env s' fname task code'
            | (s', Raised e) \<Rightarrow> (s', Inl e))
      else (s, Inr \<lparr>r_filename = fname, r_content = code, r_status = ''best_effort'',
                    r_iterations = fix_attempts s, r_tests_passed = None,
                    r_execution_time = None, r_security = None\<rparr>))"
  by pat_completeness auto
termination
  by (relation "measure (\<lambda>(env, s, fname, task, code). max_fix_attempts s - fix_attempts s)")
     (auto dest!: iteration_retry [OF sym])

declare perfect_while.simps [simp del]

definition perfect_loop ::
  "(nat \<Rightarrow> world) \<Rightarrow> state \<Rightarrow> file_info \<Rightarrow> string \<Rightarrow> state \<times> (py_exception + loop_result)" where
  "perfect_loop env s info task =
     perfect_while env (s\<lparr>fix_attempts := 0\<rparr>) (filename info) task (content info)"

text \<open>The result the loop returns when the budget is used up.\<close>

definition best_effort :: "string \<Rightarrow> string \<Rightarrow> nat \<Rightarrow> loop_result" where
  "best_effort fname code n =
     \<lparr>r_filename = fname, r_content = code, r_status = ''best_effort'',
      r_iterations = n, r_tests_passed = None,
      r_execution_time = None, r_security = None\<rparr>"

subsection \<open>The passes of one run\<close>

text \<open>
  \<open>pass_start env fname task n s code\<close> is the state and the code with which pass number
  \<open>n\<close> of the loop body starts (counted from zero) in the run that starts with \<open>s\<close> and
  \<open>code\<close>, as long as each pass before it ended in a \<^verbatim>\<open>continue\<close>; after a pass that ended
  otherwise it stays at the start of that pass. \<open>pass_outcome\<close> is what that pass does:
  the loop body in the world of its iteration. \<open>continues\<close> holds of a pass that ended in
  a \<^verbatim>\<open>continue\<close>: a gate failed and its fix returned.
\<close>

fun pass_start ::
  "(nat \<Rightarrow> world) \<Rightarrow> string \<Rightarrow> string \<Rightarrow> nat \<Rightarrow> state \<Rightarrow> string \<Rightarrow> state \<times> string" where
  "pass_start env fname task 0 s code = (s, code)"
| "pass_start env fname task (Suc n) s code =
     (case iteration (env (fix_attempts s)) s fname task code of
        (s', Retry code') \<Rightarrow> pass_start env fname task n s' code'
      | (s', Perfect res) \<Rightarrow> (s, code)
      | (s', Raised e) \<Rightarrow> (s, code))"

definition pass_outcome ::
  "(nat \<Rightarrow> world) \<Rightarrow> string \<Rightarrow> string \<Rightarrow> nat \<Rightarrow> state \<Rightarrow> string \<Rightarrow> state \<times> step" where
  "pass_outcome env fname task n s code =
     (case pass_start env fname task n s code of
        (sn, cn) \<Rightarrow> iteration (env (fix_attempts sn)) sn fname task cn)"

fun continues :: "step \<Rightarrow> bool" where
  "continues (Retry code) = True"
| "continues (Perfect res) = False"
| "continues (Raised e) = False"


section \<open>Decision on the reviewers' suggestions\<close>

text \<open>
  The texts of this part (the values of a suggestion, the reply of the deciding capability)
  are lists of code points. The reply to the analysis prompt is a \<^verbatim>\<open>str\<close> or something else.
\<close>

type_synonym suggestion = "(string \<times> ustr) list"

datatype verdict_reply = Text ustr | NotText

type_synonym decider = "prompt \<Rightarrow> py_exception + verdict_reply"

record trinity_review =
  available :: bool
  suggestions :: "suggestion list"

record decision =
  implement_suggestions :: bool
  approved_suggestions :: "suggestion list"
  rejected_suggestions :: "suggestion list option"
  reasoning :: string

definition dict_get :: "(string \<times> ustr) list \<Rightarrow> string \<Rightarrow> ustr \<Rightarrow> ustr" where
  "dict_get d k dflt = (case map_of d k of Some v \<Rightarrow> v | None \<Rightarrow> dflt)"

definition format_suggestions_for_aria :: "suggestion list \<Rightarrow> ustr" where
  "format_suggestions_for_aria suggs =
     str_join (lit nl)
       (map (\<lambda>(i, suggestion).
               lit nl @ lit ''Suggestion #'' @ lit (str_nat i) @ lit '':'' @ lit nl
               @ lit ''  Model: '' @ dict_get suggestion ''model'' (lit ''unknown'') @ lit nl
               @ lit ''  Category: '' @ dict_get suggestion ''category'' (lit ''general'') @ lit nl
               @ lit ''  Priority: '' @ dict_get suggestion ''priority'' (lit ''medium'') @ lit nl
               @ lit ''  Description: ''
               @ dict_get suggestion ''description'' (lit ''No description'') @ lit nl
               @ lit ''  Fix: '' @ dict_get suggestion ''fix'' (lit ''No fix provided'') @ lit nl
               @ lit ''  Rationale: '' @ dict_get suggestion ''rationale'' (lit ''No rationale'')
               @ lit nl)
            (enumerate 0 suggs))"

text \<open>
  The \<^verbatim>\<open>try\<close> block of one verdict line, with its bare \<^verbatim>\<open>except: pass\<close>: the entry that is
  appended, or \<^const>\<open>None\<close> when nothing is appended (the index does not parse, so \<^verbatim>\<open>int\<close>
  raises inside the \<^verbatim>\<open>try\<close>, or it is not below \<^verbatim>\<open>len(suggestions)\<close>).
  \<^verbatim>\<open>{**suggestions[idx], "aria_reasoning": reason}\<close> keeps the order of the keys and puts a new
  key last, as \<^const>\<open>AList.update\<close> does.
\<close>

definition verdict :: "interpreter \<Rightarrow> ustr \<Rightarrow> ustr \<Rightarrow> suggestion list \<Rightarrow> suggestion option" where
  "verdict py keyword line suggs =
     (let parts = str_split1 0x2D (str_replace keyword [] line)
      in case py_int py (str_strip (parts ! 0)) of
           None \<Rightarrow> None
         | Some idx \<Rightarrow>
             (let reason = (if length parts > 1 then str_strip (parts ! 1) else lit ''No reason'')
              in if 0 \<le> idx \<and> idx < int (length suggs)
                 then Some (AList.update ''aria_reasoning'' reason (suggs ! nat idx))
                 else None))"

fun decide_lines ::
  "interpreter \<Rightarrow> suggestion list \<Rightarrow> ustr list \<Rightarrow> suggestion list \<times> suggestion list
     \<Rightarrow> suggestion list \<times> suggestion list" where
  "decide_lines py suggs [] (approved, rejected) = (approved, rejected)"
| "decide_lines py suggs (raw # rest) (approved, rejected) =
     (let line = str_strip raw
      in if str_startswith (lit ''APPROVE:'') line
         then decide_lines py suggs rest
                (case verdict py (lit ''APPROVE:'') line suggs of
                   Some entry \<Rightarrow> (approved @ [entry], rejected)
                 | None \<Rightarrow> (approved, rejected))
         else if str_startswith (lit ''REJECT:'') line
         then decide_lines py suggs rest
                (case verdict py (lit ''REJECT:'') line suggs of
                   Some entry \<Rightarrow> (approved, rejected @ [entry])
                 | None \<Rightarrow> (approved, rejected))
         else decide_lines py suggs rest (approved, rejected))"

definition decision_of :: "suggestion list \<times> suggestion list \<Rightarrow> decision" where
  "decision_of both =
     (case both of
        (approved, rejected) \<Rightarrow>
          \<lparr>implement_suggestions = (length approved > 0),
           approved_suggestions = approved,
           rejected_suggestions = Some rejected,
           reasoning = ''Approved '' @ str_nat (length approved)
                       @ '', Rejected '' @ str_nat (length rejected)\<rparr>)"

definition aria_analyzes_trinity_suggestions ::
  "interpreter \<Rightarrow> decider \<Rightarrow> file_info \<Rightarrow> trinity_review \<Rightarrow> py_exception + decision" where
  "aria_analyzes_trinity_suggestions py agent info review =
     (if \<not> available review
      then Inr \<lparr>implement_suggestions = False, approved_suggestions = [],
                rejected_suggestions = None, reasoning = ''Trinity review not available''\<rparr>
      else if suggestions review = []
      then Inr \<lparr>implement_suggestions = False, approved_suggestions = [],
                rejected_suggestions = None, reasoning = ''No suggestions from Trinity''\<rparr>
      else
        (case agent (AnalysisPrompt (format_suggestions_for_aria (suggestions review))
                       (take 1000 (content info))) of
           Inl e \<Rightarrow> Inl e
         | Inr aria_response \<Rightarrow>
             (let lines = (case aria_response of
                             Text reply_text \<Rightarrow> str_split 0x0A reply_text
                           | NotText \<Rightarrow> [])
              in Inr (decision_of (decide_lines py (suggestions review) lines ([], []))))))"

subsection \<open>Verdict lines that name no suggestion\<close>

text \<open>
  The index a verdict line names, as the \<^verbatim>\<open>try\<close> block reads it; an index is outside when it
  does not parse or is not in \<^verbatim>\<open>[0, len(suggestions))\<close>; and the lines the claim is about: an
  \<^verbatim>\<open>APPROVE:\<close> or \<^verbatim>\<open>REJECT:\<close> line whose index is outside.
\<close>

definition verdict_index :: "interpreter \<Rightarrow> ustr \<Rightarrow> ustr \<Rightarrow> int option" where
  "verdict_index py keyword line =
     py_int py (str_strip (str_split1 0x2D (str_replace keyword [] line) ! 0))"

fun outside :: "suggestion list \<Rightarrow> int option \<Rightarrow> bool" where
  "outside suggs None = True"
| "outside suggs (Some idx) = (idx < 0 \<or> int (length suggs) \<le> idx)"

definition ignored_line :: "interpreter \<Rightarrow> suggestion list \<Rightarrow> ustr \<Rightarrow> bool" where
  "ignored_line py suggs raw =
     (let line = str_strip raw
      in (str_startswith (lit ''APPROVE:'') line
            \<and> outside suggs (verdict_index py (lit ''APPROVE:'') line))
         \<or> (str_startswith (lit ''REJECT:'') line
            \<and> outside suggs (verdict_index py (lit ''REJECT:'') line)))"

section \<open>Traces of the loop\<close>

text \<open>
  The order of the gates in the body of the loop, the events of a pass in which the first
  \<open>k\<close> gates let the code through, and the events of a pass that fails at gate number \<open>k\<close>
  (counted from zero) and asks for the fix of that gate.
\<close>

definition gates :: "gate list" where
  "gates = [Syntax, Static, Execution, Tests, Security]"

definition passed :: "nat \<Rightarrow> event list" where
  "passed k = map (\<lambda>g. Checked g True) (take k gates)"

definition failing_at :: "nat \<Rightarrow> event list" where
  "failing_at k = passed k @ [Checked (gates ! k) False, Fix (gates ! k)]"

text \<open>
  The events one pass may add, by the way it ends. A pass that ends in an exception stops
  after some gates, after a failed gate, or in the fix call.
\<close>

fun shape :: "step \<Rightarrow> event list \<Rightarrow> bool" where
  "shape (Perfect res) evs = (evs = passed 5)"
| "shape (Retry code) evs = (evs \<in> set (map failing_at [0..<5]))"
| "shape (Raised e) evs =
     (evs \<in> set (map passed [0..<5]) \<or>
      evs \<in> set (map (\<lambda>k. passed k @ [Checked (gates ! k) False]) [0..<5]) \<or>
      evs \<in> set (map failing_at [0..<5]))"

fun is_fix :: "event \<Rightarrow> bool" where
  "is_fix (Fix g) = True"
| "is_fix (Checked g b) = False"

definition fix_requests :: "event list \<Rightarrow> nat" where
  "fix_requests evs = length (filter is_fix evs)"

text \<open>
  Which event may come right after which: after a gate that let the code through, the next
  gate of the order; after a gate that failed, the fix of that gate; after a fix, the syntax
  gate. Nothing comes after the security gate has let the code through.
\<close>

fun next_gate :: "gate \<Rightarrow> gate option" where
  "next_gate Syntax = Some Static"
| "next_gate Static = Some Execution"
| "next_gate Execution = Some Tests"
| "next_gate Tests = Some Security"
| "next_gate Security = None"

fun is_check_of :: "gate \<Rightarrow> event \<Rightarrow> bool" where
  "is_check_of g (Checked g' b) = (g' = g)"
| "is_check_of g (Fix g') = False"

fun allowed :: "event \<Rightarrow> event \<Rightarrow> bool" where
  "allowed (Checked g True) e = (case next_gate g of None \<Rightarrow> False | Some g' \<Rightarrow> is_check_of g' e)"
| "allowed (Checked g False) e = (e = Fix g)"
| "allowed (Fix g) e = is_check_of Syntax e"

fun chain :: "event list \<Rightarrow> bool" where
  "chain (e # e' # es) = (allowed e e' \<and> chain (e' # es))"
| "chain [e] = True"
| "chain [] = True"

definition gate_discipline :: "event list \<Rightarrow> bool" where
  "gate_discipline evs = ((evs = [] \<or> is_check_of Syntax (hd evs)) \<and> chain evs)"

section \<open>A world for examples\<close>

text \<open>
  A world in which nothing goes wrong: the parser accepts, the formatters change nothing, the
  agent answers with the empty text (so no tests are generated), files can be written and
  every program exits with status zero. The examples below change single fields of it.
\<close>

definition calm_world :: world where
  "calm_world =
     \<lparr>ast_parse = (\<lambda>code. Parsed),
      black_format_str = (\<lambda>code. Inr code),
      autopep8_fix_code = (\<lambda>code. Inr code),
      aria_agent = (\<lambda>p. Inr (Str [])),
      temp_file_name = ''/tmp/tmpab12.py'',
      temp_dir_name = ''/tmp/tmpcd34'',
      write_raises = (\<lambda>p text. None),
      run_python = (\<lambda>p text. Completed 0 [] []),
      elapsed = 0,
      docker_python = (\<lambda>p text. Exited 0 []),
      run_pytest = (\<lambda>p module tests. Completed 0 [] [])\<rparr>"

text \<open>
  A world whose parser rejects a text that ends in a plus sign and accepts every other text,
  and whose agent is \<^verbatim>\<open>AriaAgent.chat\<close> over a model that answers every prompt with the same
  text, which ends in a plus sign. A run that starts with such a text fails at the syntax gate
  in every pass, while a pass on another text does not.
\<close>

definition picky_world :: world where
  "picky_world =
     calm_world
       \<lparr>ast_parse :=
          (\<lambda>code. if code \<noteq> [] \<and> last code = CHR ''+''
                  then RaisesSyntaxError (Some 1) ''invalid syntax'' (Some code)
                  else Parsed),
        aria_agent := AriaAgent_chat (\<lambda>p. Inr ''def f(x): return x +'')\<rparr>"

text \<open>
  An agent that answers each kind of prompt with a text of its own, so that the result of a
  fix shows which fix method was called.
\<close>

definition sample_agent :: chat where
  "sample_agent p =
     (case p of
        FixSyntaxPrompt error_description code \<Rightarrow> Inr (Str ''# syntax fixed'')
      | FixRuntimePrompt task errs code \<Rightarrow> Inr (Str ''# runtime errors fixed'')
      | FixTestsPrompt failures_text code \<Rightarrow> Inr (Str ''# test failures fixed'')
      | FixSecurityPrompt vuln_text code \<Rightarrow> Inr (Str ''# security issues fixed'')
      | GenerateTestsPrompt code task \<Rightarrow> Inr (Str ''def test_f(): assert f(1) == 2'')
      | AnalysisPrompt suggestions_text code \<Rightarrow> Inr (Str []))"

section \<open>Theorems\<close>

lemma contains_iff: "contains pat s \<longleftrightarrow> (\<exists>ps ss. s = ps @ pat @ ss)"
proof (induction s)
  case Nil
  then show ?case by auto
next
  case (Cons c cs)
  show ?case
  proof
    assume "contains pat (c # cs)"
    then consider "prefix pat (c # cs)" | "contains pat cs" by auto
    then show "\<exists>ps ss. c # cs = ps @ pat @ ss"
    proof cases
      case 1
      then obtain ss where "c # cs = pat @ ss" by (auto simp: prefix_def)
      then have "c # cs = [] @ pat @ ss" by simp
      then show ?thesis by blast
    next
      case 2
      with Cons.IH obtain ps ss where "cs = ps @ pat @ ss" by blast
      then have "c # cs = (c # ps) @ pat @ ss" by simp
      then show ?thesis by blast
    qed
  next
    assume "\<exists>ps ss. c # cs = ps @ pat @ ss"
    then obtain ps ss where eq: "c # cs = ps @ pat @ ss" by blast
    show "contains pat (c # cs)"
    proof (cases ps)
      case Nil
      with eq have "prefix pat (c # cs)" by (simp add: prefix_def)
      then show ?thesis by simp
    next
      case (Cons p ps')
      with eq have "cs = ps' @ pat @ ss" by simp
      with Cons.IH have "contains pat cs" by blast
      then show ?thesis by simp
    qed
  qed
qed

subsection \<open>The security scan\<close>

lemma scan_patterns_eq:
  "scan_patterns ps code acc =
     acc @ map (\<lambda>(p, m). \<lparr>v_pattern = p, v_message = m, v_severity = ''high''\<rparr>)
             (filter (\<lambda>(p, m). contains p code) ps)"
  by (induction ps arbitrary: acc) auto

lemma security_scan_eq:
  "security_scan code =
     map (\<lambda>(p, m). \<lparr>v_pattern = p, v_message = m, v_severity = ''high''\<rparr>)
       (filter (\<lambda>(p, m). \<exists>before after. code = before @ p @ after) dangerous_patterns)"
  by (simp add: security_scan_def scan_patterns_eq contains_iff)

lemma retrieval_flagged:
  "\<lparr>v_pattern = ''eval('', v_message = ''Use of eval is dangerous'', v_severity = ''high''\<rparr>
     \<in> set (security_scan (before @ ''retrieval('' @ after))"
proof -
  have "before @ ''retrieval('' @ after = (before @ ''retri'') @ ''eval('' @ after" by simp
  then have "\<exists>b a. before @ ''retrieval('' @ after = b @ ''eval('' @ a" by blast
  then show ?thesis
    unfolding security_scan_eq dangerous_patterns_def by auto
qed

subsection \<open>The events of one pass\<close>

lemma upt5: "[0..<5] = [0, 1, 2, 3, 4]"
  by (simp add: upt_rec)

lemma passed_explicit:
  "passed 0 = []"
  "passed 1 = [Checked Syntax True]"
  "passed (Suc 0) = [Checked Syntax True]"
  "passed 2 = [Checked Syntax True, Checked Static True]"
  "passed 3 = [Checked Syntax True, Checked Static True, Checked Execution True]"
  "passed 4 = [Checked Syntax True, Checked Static True, Checked Execution True,
               Checked Tests True]"
  "passed 5 = [Checked Syntax True, Checked Static True, Checked Execution True,
               Checked Tests True, Checked Security True]"
  by (simp_all add: passed_def gates_def)

lemma gates_nth:
  "gates ! 0 = Syntax" "gates ! 1 = Static" "gates ! Suc 0 = Static" "gates ! 2 = Execution"
  "gates ! 3 = Tests" "gates ! 4 = Security"
  by (simp_all add: gates_def)

lemma failing_at_explicit:
  "failing_at 0 = [Checked Syntax False, Fix Syntax]"
  "failing_at 1 = [Checked Syntax True, Checked Static False, Fix Static]"
  "failing_at (Suc 0) = [Checked Syntax True, Checked Static False, Fix Static]"
  "failing_at 2 = [Checked Syntax True, Checked Static True, Checked Execution False,
                   Fix Execution]"
  "failing_at 3 = [Checked Syntax True, Checked Static True, Checked Execution True,
                   Checked Tests False, Fix Tests]"
  "failing_at 4 = [Checked Syntax True, Checked Static True, Checked Execution True,
                   Checked Tests True, Checked Security False, Fix Security]"
  by (simp_all add: failing_at_def passed_explicit gates_nth)

lemmas shape_explicit = upt5 passed_explicit failing_at_explicit gates_nth

lemma fix_and_continue_cases:
  assumes "fix_and_continue g s r = (s', st)"
  shows "max_fix_attempts s' = max_fix_attempts s \<and> docker_client s' = docker_client s
         \<and> files s' = files s \<and> trace s' = trace s @ [Fix g]
         \<and> (\<forall>res. st \<noteq> Perfect res)
         \<and> fix_attempts s' = (case st of Retry _ \<Rightarrow> Suc (fix_attempts s) | _ \<Rightarrow> fix_attempts s)"
  using assms by (auto simp: fix_and_continue_def split: sum.splits)

lemma security_step_shape:
  assumes "security_step w s f c er tr = (s', st)"
  shows "\<exists>evs. trace s' = trace s @ evs \<and> shape st (passed 4 @ evs)"
  using assms
  by (cases st)
     (auto simp: security_step_def Let_def shape_explicit split: if_splits
       dest!: fix_and_continue_cases)

lemma tests_step_shape:
  assumes "tests_step w s f task c er = (s', st)"
  shows "\<exists>evs. trace s' = trace s @ evs \<and> shape st (passed 3 @ evs)"
  using assms
  by (cases st)
     (auto simp: tests_step_def Let_def shape_explicit
       split: if_splits sum.splits prod.splits option.splits
       dest!: fix_and_continue_cases run_tests_frame security_step_shape)

lemma execution_step_shape:
  assumes "execution_step w s f task c = (s', st)"
  shows "\<exists>evs. trace s' = trace s @ evs \<and> shape st (passed 2 @ evs)"
  using assms
  by (cases st)
     (auto simp: execution_step_def Let_def shape_explicit
       split: if_splits sum.splits prod.splits option.splits
       dest!: fix_and_continue_cases execute_code_frame tests_step_shape)

lemma static_step_shape:
  assumes "static_step w s f task c = (s', st)"
  shows "\<exists>evs. trace s' = trace s @ evs \<and> shape st (passed 1 @ evs)"
  using assms
  by (cases st)
     (auto simp: static_step_def Let_def shape_explicit
       split: if_splits sum.splits prod.splits option.splits
       dest!: fix_and_continue_cases execution_step_shape)

lemma iteration_shape:
  assumes "iteration w s f task c = (s', st)"
  shows "\<exists>evs. trace s' = trace s @ evs \<and> shape st evs"
  using assms
  by (cases st)
     (auto simp: iteration_def Let_def shape_explicit
       split: if_splits sum.splits prod.splits option.splits
       dest!: fix_and_continue_cases static_step_shape)

subsection \<open>Claim C10: the security scan matches raw substrings\<close>

lemma security_step_not_perfect:
  assumes "security_scan c \<noteq> []"
  shows "snd (security_step w s f c er tr) \<noteq> Perfect res"
  using assms
  by (auto simp: security_step_def Let_def fix_and_continue_def split: sum.splits)

text \<open>
  Claim C10. For every code string, \<^verbatim>\<open>security_scan\<close> reports one vulnerability of severity
  \<^verbatim>\<open>high\<close> for each pattern of the fixed denylist, in the order of the list, exactly when the
  pattern occurs somewhere in the text as a raw substring. The match does not look at what the
  text means: any text that holds \<^verbatim>\<open>retrieval(\<close> is reported for the pattern \<^verbatim>\<open>eval(\<close>, and with
  such a text the security gate of the loop never returns the perfect result, whatever the
  world, the state and the results of the earlier gates.
\<close>

theorem security_scan_flags_raw_substrings:
  "security_scan code =
     map (\<lambda>(p, m). \<lparr>v_pattern = p, v_message = m, v_severity = ''high''\<rparr>)
       (filter (\<lambda>(p, m). \<exists>before after. code = before @ p @ after) dangerous_patterns)
   \<and> \<lparr>v_pattern = ''eval('', v_message = ''Use of eval is dangerous'', v_severity = ''high''\<rparr>
       \<in> set (security_scan (before @ ''retrieval('' @ after))
   \<and> (\<forall>w s f er tr res.
         snd (security_step w s f (before @ ''retrieval('' @ after) er tr) \<noteq> Perfect res)"
proof -
  have "security_scan (before @ ''retrieval('' @ after) \<noteq> []"
    using retrieval_flagged [of before after] by auto
  then show ?thesis
    using security_scan_eq retrieval_flagged security_step_not_perfect by blast
qed

subsection \<open>Claim C7: what the validators do with malformed input\<close>

lemma init_restart: "(init d fs)\<lparr>fix_attempts := 0\<rparr> = init d fs"
  by (simp add: init_def)

lemma iteration_parser_raises:
  "iteration (w\<lparr>ast_parse := (\<lambda>c. RaisesOther e)\<rparr>) s fname task code = (s, Raised e)"
  by (simp add: iteration_def validate_syntax_def)

text \<open>
  Claim C7 at its failing input. \<^verbatim>\<open>validate_syntax\<close> catches \<^verbatim>\<open>SyntaxError\<close> and nothing else.
  When \<^verbatim>\<open>ast.parse\<close> raises an exception of another class (\<^verbatim>\<open>MemoryError\<close> for the text of
  100000 minus signs before a \<^verbatim>\<open>1\<close>, \<^verbatim>\<open>RecursionError\<close> for \<^verbatim>\<open>1\<close> followed by 100000 times \<^verbatim>\<open>+1\<close>),
  \<^verbatim>\<open>validate_syntax\<close> raises that exception, for every text and every such exception; these are
  the only inputs on which it raises. The exception ends the pass before any gate has a
  verdict, and it leaves \<^verbatim>\<open>perfect_loop\<close> of a fresh object as well. A \<^verbatim>\<open>SyntaxError\<close> of the
  parser does come back as one error record with line, message and text, and the sibling
  \<^verbatim>\<open>static_analysis\<close> reports no issue and raises nothing when both formatters raise.
\<close>

theorem validate_syntax_raises_what_is_no_SyntaxError:
  "validate_syntax (\<lambda>c. RaisesOther e) code = Inl e
   \<and> ((validate_syntax parser code = Inl e) \<longleftrightarrow> (parser code = RaisesOther e))
   \<and> iteration (w\<lparr>ast_parse := (\<lambda>c. RaisesOther e)\<rparr>) s fname task code = (s, Raised e)
   \<and> perfect_loop (\<lambda>n. w\<lparr>ast_parse := (\<lambda>c. RaisesOther e)\<rparr>) (init d fs) info task
       = (init d fs, Inl e)
   \<and> validate_syntax (\<lambda>c. RaisesSyntaxError lineno msg txt) code
       = Inr \<lparr>valid = False,
              errors = [\<lparr>se_line = lineno, se_message = msg, se_text = txt\<rparr>]\<rparr>
   \<and> static_analysis (\<lambda>c. Inl e1) (\<lambda>c. Inl e2) code = []"
proof -
  have a: "validate_syntax (\<lambda>c. RaisesOther e) code = Inl e"
    by (simp add: validate_syntax_def)
  have b: "(validate_syntax parser code = Inl e) \<longleftrightarrow> (parser code = RaisesOther e)"
    by (simp add: validate_syntax_def split: parse_outcome.splits)
  have c: "iteration (w\<lparr>ast_parse := (\<lambda>c. RaisesOther e)\<rparr>) s fname task code = (s, Raised e)"
    by (rule iteration_parser_raises)
  have d: "perfect_loop (\<lambda>n. w\<lparr>ast_parse := (\<lambda>c. RaisesOther e)\<rparr>) (init d fs) info task
             = (init d fs, Inl e)"
    unfolding perfect_loop_def init_restart
    by (subst perfect_while.simps) (simp add: iteration_parser_raises, simp add: init_def)
  have f: "validate_syntax (\<lambda>c. RaisesSyntaxError lineno msg txt) code
             = Inr \<lparr>valid = False,
                    errors = [\<lparr>se_line = lineno, se_message = msg, se_text = txt\<rparr>]\<rparr>"
    by (simp add: validate_syntax_def)
  have g: "static_analysis (\<lambda>c. Inl e1) (\<lambda>c. Inl e2) code = []"
    by (simp add: static_analysis_def)
  show ?thesis using a b c d f g by blast
qed

subsection \<open>Claim C4: what a fix request does when the fixer fails\<close>

text \<open>
  Claim C4 at its failing inputs. The model client of \<^verbatim>\<open>core/nvidia_nim_client.py\<close> answers a
  timeout with \<^verbatim>\<open>raise Exception("NVIDIA NIM API request timed out")\<close>. \<^verbatim>\<open>AriaAgent.chat\<close> makes
  the text \<^verbatim>\<open>Error: NVIDIA NIM API request timed out\<close> of it, and each of \<^verbatim>\<open>fix_syntax\<close>,
  \<^verbatim>\<open>fix_runtime_errors\<close>, \<^verbatim>\<open>fix_test_failures\<close> and \<^verbatim>\<open>fix_security_issues\<close> returns that text as the
  fixed code: the previous code is lost and the loop goes on with the error text. In general,
  when the client raises an exception \<open>e\<close>, a fix method returns \<^verbatim>\<open>Error: \<close> followed by \<^verbatim>\<open>str(e)\<close>
  if \<open>e\<close> is an instance of \<^verbatim>\<open>Exception\<close>, and raises \<open>e\<close> otherwise. An agent whose \<^verbatim>\<open>chat\<close> raises
  makes the fix method raise the same exception, and so does a reply that is \<^verbatim>\<open>None\<close> (an
  \<^verbatim>\<open>AttributeError\<close>): nothing in the fix methods or in the loop catches it. The previous code
  comes back only from the fallback of \<^verbatim>\<open>result.get("response", code)\<close>, for a mapping without
  that entry; the sibling \<^verbatim>\<open>fix_static_issues\<close> keeps the code when its formatter raises.
\<close>

theorem failed_fix_request_replaces_the_code:
  "fix_syntax
     (AriaAgent_chat (\<lambda>p. Inl (PyException ''Exception'' ''NVIDIA NIM API request timed out'')))
     ''def f(x): return x+''
     [\<lparr>se_line = Some 1, se_message = ''invalid syntax'', se_text = Some ''def f(x): return x+''\<rparr>]
     = Inr ''Error: NVIDIA NIM API request timed out''
   \<and> ''Error: NVIDIA NIM API request timed out'' \<noteq> ''def f(x): return x+''
   \<and> fix_and_continue Syntax s
        (fix_syntax
           (AriaAgent_chat (\<lambda>p. Inl (PyException ''Exception'' ''NVIDIA NIM API request timed out'')))
           ''def f(x): return x+''
           [\<lparr>se_line = Some 1, se_message = ''invalid syntax'',
             se_text = Some ''def f(x): return x+''\<rparr>])
       = ((log (Fix Syntax) s)\<lparr>fix_attempts := fix_attempts s + 1\<rparr>,
          Retry ''Error: NVIDIA NIM API request timed out'')
   \<and> fix_syntax (AriaAgent_chat (\<lambda>p. Inl e)) code errs
       = (if is_Exception e then Inr (''Error: '' @ exc_str e) else Inl e)
   \<and> fix_runtime_errors (AriaAgent_chat (\<lambda>p. Inl e)) code errors_text task
       = (if is_Exception e then Inr (''Error: '' @ exc_str e) else Inl e)
   \<and> fix_test_failures (AriaAgent_chat (\<lambda>p. Inl e)) code fails
       = (if is_Exception e then Inr (''Error: '' @ exc_str e) else Inl e)
   \<and> fix_security_issues (AriaAgent_chat (\<lambda>p. Inl e)) code vulns
       = (if is_Exception e then Inr (''Error: '' @ exc_str e) else Inl e)
   \<and> fix_syntax (\<lambda>p. Inl e) code errs = Inl e
   \<and> fix_runtime_errors (\<lambda>p. Inl e) code errors_text task = Inl e
   \<and> fix_test_failures (\<lambda>p. Inl e) code fails = Inl e
   \<and> fix_security_issues (\<lambda>p. Inl e) code vulns = Inl e
   \<and> fix_and_continue g s (Inl e) = (log (Fix g) s, Raised e)
   \<and> fix_syntax (\<lambda>p. Inr NoneVal) code errs
       = Inl (PyException ''AttributeError''
                (quoted ''NoneType'' @ '' object has no attribute '' @ quoted ''get''))
   \<and> fix_syntax (\<lambda>p. Inr (Dict [])) code errs = Inr code
   \<and> fix_static_issues (\<lambda>c. Inl e1) autopep8 agent code issues = code"
proof -
  let ?timeout = "PyException ''Exception'' ''NVIDIA NIM API request timed out''"
  let ?errs = "[\<lparr>se_line = Some 1, se_message = ''invalid syntax'',
                  se_text = Some ''def f(x): return x+''\<rparr>]"
  have ex: "is_Exception ?timeout"
    by (simp add: is_Exception_def)
  have a: "fix_syntax (AriaAgent_chat (\<lambda>p. Inl ?timeout)) ''def f(x): return x+'' ?errs
             = Inr ''Error: NVIDIA NIM API request timed out''"
    by (simp add: fix_syntax_def AriaAgent_chat_def fixed_code_def ex)
  have b: "''Error: NVIDIA NIM API request timed out'' \<noteq> ''def f(x): return x+''"
    by simp
  have c: "fix_and_continue Syntax s
             (fix_syntax (AriaAgent_chat (\<lambda>p. Inl ?timeout)) ''def f(x): return x+'' ?errs)
           = ((log (Fix Syntax) s)\<lparr>fix_attempts := fix_attempts s + 1\<rparr>,
              Retry ''Error: NVIDIA NIM API request timed out'')"
    unfolding a by (simp add: fix_and_continue_def)
  have d1: "fix_syntax (AriaAgent_chat (\<lambda>p. Inl e)) code errs
              = (if is_Exception e then Inr (''Error: '' @ exc_str e) else Inl e)"
    by (simp add: fix_syntax_def AriaAgent_chat_def fixed_code_def)
  have d2: "fix_runtime_errors (AriaAgent_chat (\<lambda>p. Inl e)) code errors_text task
              = (if is_Exception e then Inr (''Error: '' @ exc_str e) else Inl e)"
    by (simp add: fix_runtime_errors_def AriaAgent_chat_def fixed_code_def)
  have d3: "fix_test_failures (AriaAgent_chat (\<lambda>p. Inl e)) code fails
              = (if is_Exception e then Inr (''Error: '' @ exc_str e) else Inl e)"
    by (simp add: fix_test_failures_def AriaAgent_chat_def fixed_code_def)
  have d4: "fix_security_issues (AriaAgent_chat (\<lambda>p. Inl e)) code vulns
              = (if is_Exception e then Inr (''Error: '' @ exc_str e) else Inl e)"
    by (simp add: fix_security_issues_def AriaAgent_chat_def fixed_code_def)
  have e1: "fix_syntax (\<lambda>p. Inl e) code errs = Inl e"
    by (simp add: fix_syntax_def)
  have e2: "fix_runtime_errors (\<lambda>p. Inl e) code errors_text task = Inl e"
    by (simp add: fix_runtime_errors_def)
  have e3: "fix_test_failures (\<lambda>p. Inl e) code fails = Inl e"
    by (simp add: fix_test_failures_def)
  have e4: "fix_security_issues (\<lambda>p. Inl e) code vulns = Inl e"
    by (simp add: fix_security_issues_def)
  have f: "fix_and_continue g s (Inl e) = (log (Fix g) s, Raised e)"
    by (simp add: fix_and_continue_def)
  have g: "fix_syntax (\<lambda>p. Inr NoneVal) code errs
             = Inl (PyException ''AttributeError''
                      (quoted ''NoneType'' @ '' object has no attribute '' @ quoted ''get''))"
    by (simp add: fix_syntax_def fixed_code_def)
  have h: "fix_syntax (\<lambda>p. Inr (Dict [])) code errs = Inr code"
    by (simp add: fix_syntax_def fixed_code_def)
  have i: "fix_static_issues (\<lambda>c. Inl e1) autopep8 agent code issues = code"
    by (simp add: fix_static_issues_def)
  show ?thesis
    using a b c d1 d2 d3 d4 e1 e2 e3 e4 f g h i by blast
qed

subsection \<open>Claim C5: what happens when the static-analysis gate fails\<close>

text \<open>
  Claim C5, as the code has it. When the code parses and \<^verbatim>\<open>static_analysis\<close> reports an issue,
  the pass checks the two gates, calls \<^verbatim>\<open>fix_static_issues\<close>, counts one iteration and continues
  with the code as black and then autopep8 format it (the text before the first formatter
  that raises). The agent is not asked and the issue list is not used: another agent or
  another issue list gives the same result.
\<close>

theorem static_failure_is_fixed_by_the_formatters:
  assumes "ast_parse w code = Parsed"
    and "static_analysis (black_format_str w) (autopep8_fix_code w) code \<noteq> []"
  shows "iteration w s fname task code =
           (s\<lparr>fix_attempts := fix_attempts s + 1,
              trace := trace s @ [Checked Syntax True, Checked Static False, Fix Static]\<rparr>,
            Retry (case black_format_str w code of
                     Inl _ \<Rightarrow> code
                   | Inr formatted \<Rightarrow>
                       (case autopep8_fix_code w formatted of
                          Inl _ \<Rightarrow> formatted
                        | Inr fixed \<Rightarrow> fixed)))
         \<and> iteration (w\<lparr>aria_agent := other_agent\<rparr>) s fname task code
             = iteration w s fname task code
         \<and> fix_static_issues (black_format_str w) (autopep8_fix_code w) other_agent code
              other_issues
             = fix_static_issues (black_format_str w) (autopep8_fix_code w) (aria_agent w) code
                 (static_analysis (black_format_str w) (autopep8_fix_code w) code)"
  using assms
  by (simp add: iteration_def validate_syntax_def static_step_def fix_and_continue_def
      fix_static_issues_def log_def Let_def)

text \<open>
  The claim as stated fails: with an agent that would answer every request, the revised code
  after a static-analysis failure is the formatter's text, not the agent's.
\<close>

theorem static_failure_counterexample:
  "snd (iteration
          (calm_world\<lparr>black_format_str := (\<lambda>code. Inr ''x = 1''),
                       aria_agent := (\<lambda>p. Inr (Str ''fixed by the agent''))\<rparr>)
          (init False Map.empty) ''a.py'' ''task'' ''x=1'')
     = Retry ''x = 1''
   \<and> Retry ''x = 1'' \<noteq> Retry ''fixed by the agent''"
  by (simp add: iteration_def validate_syntax_def static_step_def fix_and_continue_def
      fix_static_issues_def static_analysis_def log_def Let_def calm_world_def init_def)

theorem static_failure_is_fixed_by_the_formatters_witness:
  "iteration (calm_world\<lparr>black_format_str := (\<lambda>code. Inr ''x = 1'')\<rparr>)
      (init False Map.empty) ''a.py'' ''task'' ''x=1''
     = ((init False Map.empty)
          \<lparr>fix_attempts := 1,
            trace := [Checked Syntax True, Checked Static False, Fix Static]\<rparr>,
        Retry ''x = 1'')"
proof -
  let ?w = "calm_world\<lparr>black_format_str := (\<lambda>code. Inr ''x = 1'')\<rparr>"
  have a: "ast_parse ?w ''x=1'' = Parsed" by (simp add: calm_world_def)
  have b: "static_analysis (black_format_str ?w) (autopep8_fix_code ?w) ''x=1'' \<noteq> []"
    by (simp add: calm_world_def static_analysis_def)
  show ?thesis
    using static_failure_is_fixed_by_the_formatters
      [OF a b, of "init False Map.empty" "''a.py''" "''task''"]
    by (simp add: calm_world_def init_def)
qed

subsection \<open>Claim C6: a timeout on the two backends\<close>

text \<open>
  Claim C6 at its failing input. When \<^verbatim>\<open>container.wait(timeout=10)\<close> raises because the time is
  over, \<^verbatim>\<open>execute_in_docker\<close> returns the same failure as for any other Docker error, with the
  text \<^verbatim>\<open>Docker execution failed: ...\<close>, which is never the text of the subprocess backend;
  \<^verbatim>\<open>execute_in_subprocess\<close> answers a timeout with \<^verbatim>\<open>Code execution timeout (infinite loop?)\<close>.
\<close>

theorem docker_timeout_is_a_generic_failure:
  "execute_in_docker (w\<lparr>docker_python := (\<lambda>p text. WaitTimeout e)\<rparr>) s filepath
     = \<lparr>success = False, exec_output = None,
        exec_errors = Some (''Docker execution failed: '' @ exc_str e), time = None\<rparr>
   \<and> ''Docker execution failed: '' @ exc_str e \<noteq> ''Code execution timeout (infinite loop?)''
   \<and> execute_in_docker (w\<lparr>docker_python := (\<lambda>p text. WaitTimeout e)\<rparr>) s filepath
     = execute_in_docker (w\<lparr>docker_python := (\<lambda>p text. DockerRaises e)\<rparr>) s filepath
   \<and> execute_in_subprocess (w\<lparr>run_python := (\<lambda>p text. TimeoutExpired msg)\<rparr>) s filepath
     = \<lparr>success = False, exec_output = None,
        exec_errors = Some ''Code execution timeout (infinite loop?)'', time = None\<rparr>"
  by (simp add: execute_in_docker_def execute_in_subprocess_def docker_failed_def)

subsection \<open>Claim C8: temporary files\<close>

text \<open>
  Claim C8 at its failing input. When writing the code into the fresh temporary file raises,
  \<^verbatim>\<open>execute_code\<close> raises that exception and the file is still there afterwards. On the other
  paths the file is gone when \<^verbatim>\<open>execute_code\<close> returns, and \<^verbatim>\<open>run_tests\<close> leaves neither its
  directory nor the two files in it, whatever happens inside.
\<close>

theorem execute_code_leaves_file_when_write_fails:
  "execute_code (w\<lparr>write_raises := (\<lambda>p text. Some e)\<rparr>) s code fname
     = (s\<lparr>files := (files s)(temp_file_name w \<mapsto> [])\<rparr>, Inl e)
   \<and> files (fst (execute_code (w\<lparr>write_raises := (\<lambda>p text. Some e)\<rparr>) s code fname))
        (temp_file_name w) = Some []
   \<and> files (fst (execute_code (w\<lparr>write_raises := (\<lambda>p text. None)\<rparr>) s code fname))
        (temp_file_name w) = None
   \<and> files (fst (run_tests w s code (Str (c # cs)))) (temp_dir_name w) = None
   \<and> files (fst (run_tests w s code (Str (c # cs)))) (temp_dir_name w @ ''/module.py'') = None
   \<and> files (fst (run_tests w s code (Str (c # cs)))) (temp_dir_name w @ ''/test_module.py'') = None"
  by (auto simp: execute_code_def run_tests_def run_tests_in_def truthy_def cleanup_def under_def
      Let_def split: option.splits prod.splits)

subsection \<open>Claim C9: verdict lines with an index that is no suggestion\<close>

lemma verdict_outside:
  assumes "outside suggs (verdict_index py keyword line)"
  shows "verdict py keyword line suggs = None"
  using assms
  by (cases "verdict_index py keyword line")
     (auto simp: verdict_def verdict_index_def Let_def)

lemma not_both_keywords:
  "str_startswith (lit ''APPROVE:'') line \<Longrightarrow> \<not> str_startswith (lit ''REJECT:'') line"
  by (auto simp: str_startswith_def prefix_def lit_def)

lemma decide_lines_skip:
  assumes "ignored_line py suggs raw"
  shows "decide_lines py suggs (raw # rest) acc = decide_lines py suggs rest acc"
proof (cases acc)
  case (Pair approved rejected)
  show ?thesis
    using assms not_both_keywords [of "str_strip raw"]
    by (auto simp: Pair ignored_line_def Let_def verdict_outside)
qed

lemma decide_lines_append:
  "decide_lines py suggs (xs @ ys) acc = decide_lines py suggs ys (decide_lines py suggs xs acc)"
proof (induction xs arbitrary: acc)
  case Nil
  show ?case by (cases acc) simp
next
  case (Cons x xs)
  show ?case
    by (cases acc) (simp add: Let_def Cons.IH)
qed

lemma decide_lines_drop_ignored:
  assumes "ignored_line py suggs raw"
  shows "decide_lines py suggs (before @ raw # after) acc
           = decide_lines py suggs (before @ after) acc"
  by (simp add: decide_lines_append decide_lines_skip [OF assms])

text \<open>
  Claim C9. Let the text of the deciding capability hold an \<^verbatim>\<open>APPROVE:\<close> or \<^verbatim>\<open>REJECT:\<close> line whose
  index does not parse as an integer or lies outside \<^verbatim>\<open>[0, len(suggestions))\<close>. Then the line
  is ignored: the decision is the one the text without that line gives, the line adds nothing
  to the approved or the rejected list, and whatever the capability replies, the analysis
  returns a decision and raises nothing. This holds for every interpreter, whatever its
  decimal digits and its limit on the length of a number.
\<close>

theorem bad_verdict_lines_are_ignored:
  assumes "ignored_line py (suggestions review) raw"
    and "str_split 0x0A reply_text = before @ raw # after"
    and "str_split 0x0A reply_text' = before @ after"
  shows "aria_analyzes_trinity_suggestions py (\<lambda>p. Inr (Text reply_text)) info review
           = aria_analyzes_trinity_suggestions py (\<lambda>p. Inr (Text reply_text')) info review
         \<and> decide_lines py (suggestions review) (before @ raw # after) acc
           = decide_lines py (suggestions review) (before @ after) acc
         \<and> decide_lines py (suggestions review) [raw] acc = acc
         \<and> (\<exists>d. aria_analyzes_trinity_suggestions py (\<lambda>p. Inr reply) info review = Inr d)"
proof -
  have drop: "decide_lines py (suggestions review) (before @ raw # after) a
                = decide_lines py (suggestions review) (before @ after) a" for a
    by (rule decide_lines_drop_ignored [OF assms(1)])
  have one: "decide_lines py (suggestions review) [raw] acc = acc"
    using decide_lines_skip [OF assms(1), of "[]" acc] by (cases acc) simp
  have same: "aria_analyzes_trinity_suggestions py (\<lambda>p. Inr (Text reply_text)) info review
           = aria_analyzes_trinity_suggestions py (\<lambda>p. Inr (Text reply_text')) info review"
    by (simp add: aria_analyzes_trinity_suggestions_def assms(2,3) drop)
  have total: "\<exists>d. aria_analyzes_trinity_suggestions py (\<lambda>p. Inr reply) info review = Inr d"
    by (simp add: aria_analyzes_trinity_suggestions_def)
  show ?thesis using drop one same total by blast
qed

lemmas int_defs =
  verdict_index_def verdict_def str_startswith_def str_strip_def py_isspace_def int_blank_def str_replace_def
  str_split1_def py_int_def cpython_3_11_def unicode_decimal_def nd_zeros_def lit_def Let_def

text \<open>
  An example on CPython 3.11. The first line approves suggestion 0 with the Arabic-Indic digit
  zero, which \<^verbatim>\<open>int\<close> reads; the second names suggestion 7 of one; the third starts with a
  no-break space, which \<^verbatim>\<open>strip()\<close> drops, and its index is no number.
\<close>

theorem bad_verdict_lines_are_ignored_witness:
  "ignored_line cpython_3_11 [[(''model'', lit ''gpt'')]] (lit ''APPROVE: 7 - no such entry'')
   \<and> aria_analyzes_trinity_suggestions cpython_3_11
        (\<lambda>p. Inr (Text (lit ''APPROVE: '' @ [0x660] @ lit '' - clearer names'' @ [0x0A]
                         @ lit ''APPROVE: 7 - no such entry'' @ [0x0A]
                         @ [0xA0] @ lit ''REJECT: x - unclear'')))
        \<lparr>filename = ''a.py'', content = ''x = 1''\<rparr>
        \<lparr>available = True, suggestions = [[(''model'', lit ''gpt'')]]\<rparr>
     = aria_analyzes_trinity_suggestions cpython_3_11
        (\<lambda>p. Inr (Text (lit ''APPROVE: '' @ [0x660] @ lit '' - clearer names'' @ [0x0A]
                         @ [0xA0] @ lit ''REJECT: x - unclear'')))
        \<lparr>filename = ''a.py'', content = ''x = 1''\<rparr>
        \<lparr>available = True, suggestions = [[(''model'', lit ''gpt'')]]\<rparr>
   \<and> decide_lines cpython_3_11 [[(''model'', lit ''gpt'')]]
        [lit ''APPROVE: 7 - no such entry''] ([], []) = ([], [])"
proof -
  let ?review = "\<lparr>available = True, suggestions = [[(''model'', lit ''gpt'')]]\<rparr>"
  let ?l1 = "lit ''APPROVE: '' @ [0x660] @ lit '' - clearer names''"
  let ?l2 = "lit ''APPROVE: 7 - no such entry''"
  let ?l3 = "[0xA0] @ lit ''REJECT: x - unclear''"
  have a: "ignored_line cpython_3_11 (suggestions ?review) ?l2"
    by (simp add: ignored_line_def int_defs)
  have b: "str_split 0x0A (?l1 @ [0x0A] @ ?l2 @ [0x0A] @ ?l3) = [?l1] @ ?l2 # [?l3]"
    by (simp add: lit_def)
  have c: "str_split 0x0A (?l1 @ [0x0A] @ ?l3) = [?l1] @ [?l3]"
    by (simp add: lit_def)
  show ?thesis
    using a bad_verdict_lines_are_ignored
      [OF a b c, of "\<lparr>filename = ''a.py'', content = ''x = 1''\<rparr>" "([], [])"]
    by simp
qed

subsection \<open>The loop as a whole\<close>

lemma security_step_out:
  assumes "security_step w s f c er tr = (s', st)"
  shows "max_fix_attempts s' = max_fix_attempts s
         \<and> fix_attempts s' = (case st of Retry _ \<Rightarrow> Suc (fix_attempts s) | _ \<Rightarrow> fix_attempts s)
         \<and> (\<forall>res. st = Perfect res \<longrightarrow>
               r_status res = ''perfect'' \<and> r_content res = c \<and> r_filename res = f
               \<and> r_iterations res = fix_attempts s \<and> security_scan c = [])"
  using assms
  by (cases st) (auto simp: security_step_def Let_def split: if_splits dest!: fix_and_continue_cases)

lemma tests_step_out:
  assumes "tests_step w s f task c er = (s', st)"
  shows "max_fix_attempts s' = max_fix_attempts s
         \<and> fix_attempts s' = (case st of Retry _ \<Rightarrow> Suc (fix_attempts s) | _ \<Rightarrow> fix_attempts s)
         \<and> (\<forall>res. st = Perfect res \<longrightarrow>
               r_status res = ''perfect'' \<and> r_content res = c \<and> r_filename res = f
               \<and> r_iterations res = fix_attempts s \<and> security_scan c = [])"
  using assms
  by (cases st) (auto simp: tests_step_def Let_def
      split: if_splits sum.splits prod.splits option.splits
      dest!: fix_and_continue_cases run_tests_frame security_step_out)

lemma execution_step_out:
  assumes "execution_step w s f task c = (s', st)"
  shows "max_fix_attempts s' = max_fix_attempts s
         \<and> fix_attempts s' = (case st of Retry _ \<Rightarrow> Suc (fix_attempts s) | _ \<Rightarrow> fix_attempts s)
         \<and> (\<forall>res. st = Perfect res \<longrightarrow>
               r_status res = ''perfect'' \<and> r_content res = c \<and> r_filename res = f
               \<and> r_iterations res = fix_attempts s \<and> security_scan c = [])"
  using assms
  by (cases st) (auto simp: execution_step_def Let_def
      split: if_splits sum.splits prod.splits option.splits
      dest!: fix_and_continue_cases execute_code_frame tests_step_out)

lemma static_step_out:
  assumes "static_step w s f task c = (s', st)"
  shows "max_fix_attempts s' = max_fix_attempts s
         \<and> fix_attempts s' = (case st of Retry _ \<Rightarrow> Suc (fix_attempts s) | _ \<Rightarrow> fix_attempts s)
         \<and> (\<forall>res. st = Perfect res \<longrightarrow>
               r_status res = ''perfect'' \<and> r_content res = c \<and> r_filename res = f
               \<and> r_iterations res = fix_attempts s \<and> security_scan c = [])"
  using assms
  by (cases st) (auto simp: static_step_def Let_def split: if_splits
      dest!: fix_and_continue_cases execution_step_out)

lemma iteration_out:
  assumes "iteration w s f task c = (s', st)"
  shows "max_fix_attempts s' = max_fix_attempts s
         \<and> fix_attempts s' = (case st of Retry _ \<Rightarrow> Suc (fix_attempts s) | _ \<Rightarrow> fix_attempts s)
         \<and> (\<forall>res. st = Perfect res \<longrightarrow>
               r_status res = ''perfect'' \<and> r_content res = c \<and> r_filename res = f
               \<and> r_iterations res = fix_attempts s \<and> security_scan c = [])"
  using assms
  by (cases st) (auto simp: iteration_def Let_def split: if_splits sum.splits
      dest!: fix_and_continue_cases static_step_out)

lemma shape_fix_requests:
  assumes "shape st evs"
  shows "fix_requests evs = (case st of Perfect _ \<Rightarrow> 0 | Retry _ \<Rightarrow> 1 | Raised _ \<Rightarrow> fix_requests evs)
         \<and> fix_requests evs \<le> 1"
  using assms by (cases st) (auto simp: shape_explicit fix_requests_def)

lemma shape_chain:
  assumes "shape st evs"
  shows "chain evs \<and> (evs = [] \<or> is_check_of Syntax (hd evs))
         \<and> (\<forall>c. st = Retry c \<longrightarrow> evs \<noteq> [] \<and> is_fix (last evs))"
  using assms by (cases st) (auto simp: shape_explicit)

lemma chain_append:
  "chain (xs @ ys) \<longleftrightarrow> chain xs \<and> chain ys \<and> (xs = [] \<or> ys = [] \<or> allowed (last xs) (hd ys))"
proof (induction xs rule: chain.induct)
  case (1 e e' es)
  then show ?case by auto
next
  case (2 e)
  then show ?case by (cases ys) auto
next
  case 3
  then show ?case by simp
qed

lemma allowed_after_fix: "is_fix e \<Longrightarrow> allowed e e' = is_check_of Syntax e'"
  by (cases e) auto

lemma fix_requests_append [simp]: "fix_requests (xs @ ys) = fix_requests xs + fix_requests ys"
  by (simp add: fix_requests_def)

lemma fix_requests_Nil [simp]: "fix_requests [] = 0"
  by (simp add: fix_requests_def)

lemma perfect_while_stop:
  assumes "\<not> fix_attempts s < max_fix_attempts s"
  shows "perfect_while env s f t c = (s, Inr (best_effort f c (fix_attempts s)))"
  using assms by (simp add: perfect_while.simps [of env s f t c] best_effort_def)

lemma perfect_while_step:
  assumes "fix_attempts s < max_fix_attempts s"
    and "iteration (env (fix_attempts s)) s f t c = (s1, st)"
  shows "perfect_while env s f t c =
           (case st of Perfect res \<Rightarrow> (s1, Inr res)
                     | Retry c1 \<Rightarrow> perfect_while env s1 f t c1
                     | Raised e \<Rightarrow> (s1, Inl e))"
  using assms by (simp add: perfect_while.simps [of env s f t c])

lemma perfect_while_invariant:
  assumes "perfect_while env s f t c = (s', out)"
  shows "max_fix_attempts s' = max_fix_attempts s
         \<and> fix_attempts s \<le> fix_attempts s'
         \<and> (fix_attempts s \<le> max_fix_attempts s \<longrightarrow> fix_attempts s' \<le> max_fix_attempts s)
         \<and> (\<exists>evs. trace s' = trace s @ evs
                \<and> fix_requests evs \<le> max_fix_attempts s - fix_attempts s
                \<and> chain evs \<and> (evs = [] \<or> is_check_of Syntax (hd evs)))
         \<and> (\<forall>res. out = Inr res \<longrightarrow>
               r_iterations res = fix_attempts s' \<and> r_filename res = f
               \<and> (r_status res = ''perfect'' \<and> security_scan (r_content res) = []
                  \<or> r_status res = ''best_effort'' \<and> max_fix_attempts s \<le> fix_attempts s'))"
  using assms
proof (induction env s f t c arbitrary: s' out rule: perfect_while.induct)
  case (1 env s f t c)
  show ?case
  proof (cases "fix_attempts s < max_fix_attempts s")
    case False
    with "1.prems" have "s' = s" "out = Inr (best_effort f c (fix_attempts s))"
      by (auto simp: perfect_while_stop)
    with False show ?thesis by (auto simp: best_effort_def)
  next
    case True
    obtain s1 st where it: "iteration (env (fix_attempts s)) s f t c = (s1, st)"
      by (cases "iteration (env (fix_attempts s)) s f t c")
    note out = iteration_out [OF it]
    from iteration_shape [OF it] obtain evs where
      evs: "trace s1 = trace s @ evs" "shape st evs" by blast
    note fr = shape_fix_requests [OF evs(2)]
    note ch = shape_chain [OF evs(2)]
    note step = perfect_while_step [where env = env, OF True it]
    show ?thesis
    proof (cases st)
      case (Perfect res)
      with step "1.prems" have eq: "s' = s1" "out = Inr res" by simp_all
      have "fix_requests evs \<le> max_fix_attempts s - fix_attempts s"
        using fr Perfect by simp
      with eq out Perfect evs ch True show ?thesis by auto
    next
      case (Raised e)
      with step "1.prems" have eq: "s' = s1" "out = Inl e" by simp_all
      have "fix_requests evs \<le> max_fix_attempts s - fix_attempts s"
        using fr True by linarith
      with eq out Raised evs ch True show ?thesis by auto
    next
      case (Retry c1)
      with step "1.prems" have rec: "perfect_while env s1 f t c1 = (s', out)" by simp
      have s1: "fix_attempts s1 = Suc (fix_attempts s)" "max_fix_attempts s1 = max_fix_attempts s"
        using out Retry by simp_all
      note IH = "1.IH" [OF True it [symmetric] Retry rec]
      from IH obtain evs' where
        evs': "trace s' = trace s1 @ evs'"
          "fix_requests evs' \<le> max_fix_attempts s1 - fix_attempts s1"
          "chain evs'" "evs' = [] \<or> is_check_of Syntax (hd evs')"
        by blast
      have one: "fix_requests evs = 1" using fr Retry by simp
      have ne: "evs \<noteq> []" "is_fix (last evs)" using ch Retry by simp_all
      have tr: "trace s' = trace s @ (evs @ evs')" using evs(1) evs'(1) by simp
      have cnt: "fix_requests (evs @ evs') \<le> max_fix_attempts s - fix_attempts s"
        using one evs'(2) s1 True by simp
      have chn: "chain (evs @ evs')"
        using ch evs'(3,4) ne by (auto simp: chain_append allowed_after_fix)
      have hd: "evs @ evs' = [] \<or> is_check_of Syntax (hd (evs @ evs'))"
        using ch ne by simp
      have ex: "\<exists>evs. trace s' = trace s @ evs
                \<and> fix_requests evs \<le> max_fix_attempts s - fix_attempts s
                \<and> chain evs \<and> (evs = [] \<or> is_check_of Syntax (hd evs))"
        using tr cnt chn hd by blast
      show ?thesis using IH s1 True ex by auto
    qed
  qed
qed

subsection \<open>Claim C1: the loop is bounded\<close>

lemma pass_start_retry:
  assumes "iteration (env (fix_attempts s)) s f t c = (s1, Retry c1)"
  shows "pass_start env f t (Suc n) s c = pass_start env f t n s1 c1"
    and "pass_outcome env f t (Suc n) s c = pass_outcome env f t n s1 c1"
  using assms by (simp_all add: pass_outcome_def)

lemma pass_outcome_0:
  "pass_outcome env f t 0 s c = iteration (env (fix_attempts s)) s f t c"
  by (simp add: pass_outcome_def)

lemma continues_iff: "continues st \<longleftrightarrow> (\<exists>c. st = Retry c)"
  by (cases st) auto

lemma first_pass_continues:
  assumes "\<forall>n<Suc k. continues (snd (pass_outcome env f t n s c))"
  shows "\<exists>s1 c1. iteration (env (fix_attempts s)) s f t c = (s1, Retry c1)
           \<and> fix_attempts s1 = Suc (fix_attempts s)
           \<and> max_fix_attempts s1 = max_fix_attempts s
           \<and> (\<exists>evs. trace s1 = trace s @ evs \<and> fix_requests evs = 1)
           \<and> (\<forall>n<k. continues (snd (pass_outcome env f t n s1 c1)))"
proof -
  obtain s1 st where it: "iteration (env (fix_attempts s)) s f t c = (s1, st)"
    by (cases "iteration (env (fix_attempts s)) s f t c")
  from assms have "continues (snd (pass_outcome env f t 0 s c))" by blast
  with it obtain c1 where st: "st = Retry c1"
    by (auto simp: pass_outcome_0 continues_iff)
  note it' = it [unfolded st]
  have s1: "fix_attempts s1 = Suc (fix_attempts s)" "max_fix_attempts s1 = max_fix_attempts s"
    using iteration_out [OF it] st by simp_all
  from iteration_shape [OF it] obtain evs where
    evs: "trace s1 = trace s @ evs" "shape st evs" by blast
  have one: "fix_requests evs = 1" using shape_fix_requests [OF evs(2)] st by simp
  have H: "\<forall>n<k. continues (snd (pass_outcome env f t n s1 c1))"
  proof (intro allI impI)
    fix n assume "n < k"
    then have "Suc n < Suc k" by simp
    with assms have "continues (snd (pass_outcome env f t (Suc n) s c))" by blast
    then show "continues (snd (pass_outcome env f t n s1 c1))"
      by (simp add: pass_start_retry(2) [where env = env, OF it'])
  qed
  show ?thesis using it' s1 evs(1) one H by blast
qed

lemma pass_start_all_continue:
  assumes "\<forall>n<k. continues (snd (pass_outcome env f t n s c))"
  shows "fix_attempts (fst (pass_start env f t k s c)) = fix_attempts s + k
         \<and> max_fix_attempts (fst (pass_start env f t k s c)) = max_fix_attempts s
         \<and> (\<exists>evs. trace (fst (pass_start env f t k s c)) = trace s @ evs
               \<and> fix_requests evs = k)"
  using assms
proof (induction k arbitrary: s c)
  case 0
  show ?case by simp
next
  case (Suc k)
  from first_pass_continues [OF Suc.prems] obtain s1 c1 evs where
    it: "iteration (env (fix_attempts s)) s f t c = (s1, Retry c1)"
    and s1: "fix_attempts s1 = Suc (fix_attempts s)" "max_fix_attempts s1 = max_fix_attempts s"
    and evs: "trace s1 = trace s @ evs" "fix_requests evs = 1"
    and H: "\<forall>n<k. continues (snd (pass_outcome env f t n s1 c1))"
    by blast
  from Suc.IH [OF H] obtain evs' where
    IH: "fix_attempts (fst (pass_start env f t k s1 c1)) = fix_attempts s1 + k"
      "max_fix_attempts (fst (pass_start env f t k s1 c1)) = max_fix_attempts s1"
      "trace (fst (pass_start env f t k s1 c1)) = trace s1 @ evs'" "fix_requests evs' = k"
    by blast
  have eq: "pass_start env f t (Suc k) s c = pass_start env f t k s1 c1"
    by (rule pass_start_retry(1) [where env = env, OF it])
  have tr: "trace (fst (pass_start env f t (Suc k) s c)) = trace s @ (evs @ evs')"
    using eq IH(3) evs(1) by simp
  have cnt: "fix_requests (evs @ evs') = Suc k" using evs(2) IH(4) by simp
  have ex: "\<exists>evs. trace (fst (pass_start env f t (Suc k) s c)) = trace s @ evs
               \<and> fix_requests evs = Suc k"
    using tr cnt by blast
  show ?case using eq IH(1,2) s1 ex by simp
qed

lemma pass_outcome_last:
  assumes "\<forall>n<Suc k. continues (snd (pass_outcome env f t n s c))"
  shows "pass_outcome env f t k s c
           = (fst (pass_start env f t (Suc k) s c), Retry (snd (pass_start env f t (Suc k) s c)))"
  using assms
proof (induction k arbitrary: s c)
  case 0
  from first_pass_continues [OF "0.prems"] obtain s1 c1 where
    it: "iteration (env (fix_attempts s)) s f t c = (s1, Retry c1)" by blast
  then show ?case by (simp add: pass_outcome_0)
next
  case (Suc k)
  from first_pass_continues [OF Suc.prems] obtain s1 c1 where
    it: "iteration (env (fix_attempts s)) s f t c = (s1, Retry c1)"
    and H: "\<forall>n<Suc k. continues (snd (pass_outcome env f t n s1 c1))"
    by blast
  have a: "pass_outcome env f t (Suc k) s c = pass_outcome env f t k s1 c1"
    by (rule pass_start_retry(2) [where env = env, OF it])
  have b: "pass_start env f t (Suc (Suc k)) s c = pass_start env f t (Suc k) s1 c1"
    by (rule pass_start_retry(1) [where env = env, OF it])
  from Suc.IH [OF H] show ?case unfolding a b .
qed

lemma perfect_while_all_continue:
  assumes "\<forall>n<max_fix_attempts s - fix_attempts s. continues (snd (pass_outcome env f t n s c))"
  shows "perfect_while env s f t c
           = (fst (pass_start env f t (max_fix_attempts s - fix_attempts s) s c),
              Inr (best_effort f
                     (snd (pass_start env f t (max_fix_attempts s - fix_attempts s) s c))
                     (fix_attempts
                        (fst (pass_start env f t (max_fix_attempts s - fix_attempts s) s c)))))"
  using assms
proof (induction "max_fix_attempts s - fix_attempts s" arbitrary: s c)
  case 0
  then have "\<not> fix_attempts s < max_fix_attempts s" by simp
  from perfect_while_stop [OF this] 0(1) [symmetric] show ?case by simp
next
  case (Suc k)
  from Suc(2) have lt: "fix_attempts s < max_fix_attempts s" by simp
  from Suc(3) Suc(2) have all: "\<forall>n<Suc k. continues (snd (pass_outcome env f t n s c))"
    by simp
  from first_pass_continues [OF all] obtain s1 c1 where
    it: "iteration (env (fix_attempts s)) s f t c = (s1, Retry c1)"
    and s1: "fix_attempts s1 = Suc (fix_attempts s)" "max_fix_attempts s1 = max_fix_attempts s"
    and H: "\<forall>n<k. continues (snd (pass_outcome env f t n s1 c1))"
    by blast
  have k: "k = max_fix_attempts s1 - fix_attempts s1" using Suc(2) s1 by simp
  have step: "perfect_while env s f t c = perfect_while env s1 f t c1"
    using perfect_while_step [where env = env, OF lt it] by simp
  have eq: "pass_start env f t (Suc k) s c = pass_start env f t k s1 c1"
    by (rule pass_start_retry(1) [where env = env, OF it])
  from Suc(1) [OF k] H k
  have "perfect_while env s1 f t c1
           = (fst (pass_start env f t k s1 c1),
              Inr (best_effort f (snd (pass_start env f t k s1 c1))
                     (fix_attempts (fst (pass_start env f t k s1 c1)))))"
    by simp
  then show ?case using step eq Suc(2) [symmetric] by simp
qed

lemma perfect_while_raise_pass:
  assumes "perfect_while env s f t c = (s', Inl e)"
  shows "\<exists>n<max_fix_attempts s - fix_attempts s. pass_outcome env f t n s c = (s', Raised e)"
  using assms
proof (induction env s f t c rule: perfect_while.induct)
  case (1 env s f t c)
  show ?case
  proof (cases "fix_attempts s < max_fix_attempts s")
    case False
    with "1.prems" show ?thesis by (simp add: perfect_while_stop)
  next
    case True
    obtain s1 st where it: "iteration (env (fix_attempts s)) s f t c = (s1, st)"
      by (cases "iteration (env (fix_attempts s)) s f t c")
    note step = perfect_while_step [where env = env, OF True it]
    show ?thesis
    proof (cases st)
      case (Perfect res)
      with step "1.prems" show ?thesis by simp
    next
      case (Raised e')
      with step "1.prems" have "s' = s1" "e' = e" by simp_all
      with it Raised have "pass_outcome env f t 0 s c = (s', Raised e)"
        by (simp add: pass_outcome_0)
      with True show ?thesis by (intro exI [of _ 0]) simp
    next
      case (Retry c1)
      with step "1.prems" have rec: "perfect_while env s1 f t c1 = (s', Inl e)" by simp
      have s1: "fix_attempts s1 = Suc (fix_attempts s)" "max_fix_attempts s1 = max_fix_attempts s"
        using iteration_out [OF it] Retry by simp_all
      from "1.IH" [OF True it [symmetric] Retry rec] obtain n where
        n: "n < max_fix_attempts s1 - fix_attempts s1"
          "pass_outcome env f t n s1 c1 = (s', Raised e)"
        by blast
      have "pass_outcome env f t (Suc n) s c = (s', Raised e)"
        using n(2) pass_start_retry(2) [where env = env, OF it [unfolded Retry]] by simp
      moreover have "Suc n < max_fix_attempts s - fix_attempts s" using n(1) s1 by simp
      ultimately show ?thesis by blast
    qed
  qed
qed

text \<open>
  Claim C1. For every artifact and every world (so every behaviour of the fixer),
  \<^verbatim>\<open>perfect_loop\<close> returns, the counter of fix iterations ends at most at
  \<^verbatim>\<open>max_fix_attempts\<close> (ten after \<^verbatim>\<open>__init__\<close>), at most that many fix requests are made, and a
  returned result reports the counter. An exception can only come out of one of the passes of
  the run, started within the budget, never from running out of the budget. If each pass of
  the run, up to the budget, ends in a \<^verbatim>\<open>continue\<close> (a gate failed and its fix returned), the
  loop ends after exactly \<^verbatim>\<open>max_fix_attempts\<close> passes and as many fix requests, with status
  \<^verbatim>\<open>best_effort\<close>, and the content it returns is the code the fix of the last pass returned.
  Only the passes that the run makes are assumed to fail, not every pass on every code.
\<close>

theorem perfect_loop_is_bounded:
  "(perfect_loop env s info task = (s', out) \<longrightarrow>
      fix_attempts s' \<le> max_fix_attempts s
      \<and> (\<exists>evs. trace s' = trace s @ evs \<and> fix_requests evs \<le> max_fix_attempts s)
      \<and> (\<forall>res. out = Inr res \<longrightarrow>
            r_iterations res = fix_attempts s' \<and> r_iterations res \<le> max_fix_attempts s)
      \<and> (\<forall>e. out = Inl e \<longrightarrow>
            (\<exists>n<max_fix_attempts s.
               pass_outcome env (filename info) task n (s\<lparr>fix_attempts := 0\<rparr>) (content info)
                 = (s', Raised e))))
   \<and> ((\<forall>n<max_fix_attempts s.
          continues (snd (pass_outcome env (filename info) task n
                            (s\<lparr>fix_attempts := 0\<rparr>) (content info)))) \<longrightarrow>
       perfect_loop env s info task
         = (fst (pass_start env (filename info) task (max_fix_attempts s)
                   (s\<lparr>fix_attempts := 0\<rparr>) (content info)),
            Inr (best_effort (filename info)
                   (snd (pass_start env (filename info) task (max_fix_attempts s)
                           (s\<lparr>fix_attempts := 0\<rparr>) (content info)))
                   (max_fix_attempts s)))
       \<and> fix_attempts (fst (perfect_loop env s info task)) = max_fix_attempts s
       \<and> (\<exists>evs. trace (fst (perfect_loop env s info task)) = trace s @ evs
             \<and> fix_requests evs = max_fix_attempts s)
       \<and> (0 < max_fix_attempts s \<longrightarrow>
            pass_outcome env (filename info) task (max_fix_attempts s - 1)
                (s\<lparr>fix_attempts := 0\<rparr>) (content info)
              = (fst (perfect_loop env s info task),
                 Retry (snd (pass_start env (filename info) task (max_fix_attempts s)
                               (s\<lparr>fix_attempts := 0\<rparr>) (content info))))))
   \<and> max_fix_attempts (init docker_available fs) = 10"
proof (intro conjI impI)
  let ?s = "s\<lparr>fix_attempts := 0\<rparr>"
  assume run: "perfect_loop env s info task = (s', out)"
  then have w: "perfect_while env ?s (filename info) task (content info) = (s', out)"
    by (simp add: perfect_loop_def)
  note inv = perfect_while_invariant [OF w]
  show "fix_attempts s' \<le> max_fix_attempts s" using inv by simp
  show "\<exists>evs. trace s' = trace s @ evs \<and> fix_requests evs \<le> max_fix_attempts s"
    using inv by auto
  show "\<forall>res. out = Inr res \<longrightarrow>
            r_iterations res = fix_attempts s' \<and> r_iterations res \<le> max_fix_attempts s"
    using inv by auto
  show "\<forall>e. out = Inl e \<longrightarrow>
            (\<exists>n<max_fix_attempts s.
               pass_outcome env (filename info) task n ?s (content info) = (s', Raised e))"
    using w perfect_while_raise_pass [of env ?s "filename info" task "content info" s'] by auto
next
  let ?s = "s\<lparr>fix_attempts := 0\<rparr>"
  let ?m = "max_fix_attempts s"
  let ?end = "pass_start env (filename info) task ?m ?s (content info)"
  assume H: "\<forall>n<?m. continues (snd (pass_outcome env (filename info) task n ?s (content info)))"
  then have H': "\<forall>n<max_fix_attempts ?s - fix_attempts ?s.
      continues (snd (pass_outcome env (filename info) task n ?s (content info)))" by simp
  note ps = pass_start_all_continue [OF H]
  have fa: "fix_attempts (fst ?end) = ?m" using ps by simp
  have run: "perfect_loop env s info task
               = (fst ?end, Inr (best_effort (filename info) (snd ?end) ?m))"
    using perfect_while_all_continue [OF H'] fa by (simp add: perfect_loop_def)
  show "perfect_loop env s info task
               = (fst ?end, Inr (best_effort (filename info) (snd ?end) ?m))"
    by (rule run)
  show "fix_attempts (fst (perfect_loop env s info task)) = ?m"
    using run fa by simp
  show "\<exists>evs. trace (fst (perfect_loop env s info task)) = trace s @ evs
             \<and> fix_requests evs = ?m"
    using run ps by simp
  show "pass_outcome env (filename info) task (?m - 1) ?s (content info)
              = (fst (perfect_loop env s info task), Retry (snd ?end))"
    if pos: "0 < ?m"
  proof -
    from pos obtain k where k: "?m = Suc k" by (cases ?m) auto
    from H k have "\<forall>n<Suc k.
        continues (snd (pass_outcome env (filename info) task n ?s (content info)))" by simp
    from pass_outcome_last [OF this] k run show ?thesis by simp
  qed
next
  show "max_fix_attempts (init docker_available fs) = 10" by (simp add: init_def)
qed

lemma picky_iteration:
  assumes "code \<noteq> []" and "last code = CHR ''+''"
  shows "iteration picky_world s f t code
           = ((log (Fix Syntax) (log (Checked Syntax False) s))
                \<lparr>fix_attempts := fix_attempts s + 1\<rparr>,
              Retry ''def f(x): return x +'')"
  using assms
  by (simp add: iteration_def validate_syntax_def picky_world_def calm_world_def
      fix_and_continue_def fix_syntax_def fixed_code_def AriaAgent_chat_def Let_def)

lemma picky_pass_start:
  assumes "code \<noteq> []" and "last code = CHR ''+''"
  shows "snd (pass_start (\<lambda>n. picky_world) f t n s code) \<noteq> []
         \<and> last (snd (pass_start (\<lambda>n. picky_world) f t n s code)) = CHR ''+''
         \<and> (0 < n \<longrightarrow>
              snd (pass_start (\<lambda>n. picky_world) f t n s code) = ''def f(x): return x +'')"
  using assms
proof (induction n arbitrary: s code)
  case 0
  then show ?case by simp
next
  case (Suc n)
  let ?s1 = "(log (Fix Syntax) (log (Checked Syntax False) s))
               \<lparr>fix_attempts := fix_attempts s + 1\<rparr>"
  let ?c1 = "''def f(x): return x +''"
  note it = picky_iteration [OF Suc.prems, of s f t]
  have eq: "pass_start (\<lambda>n. picky_world) f t (Suc n) s code
              = pass_start (\<lambda>n. picky_world) f t n ?s1 ?c1"
    using it by simp
  have IH: "snd (pass_start (\<lambda>n. picky_world) f t n ?s1 ?c1) \<noteq> []
         \<and> last (snd (pass_start (\<lambda>n. picky_world) f t n ?s1 ?c1)) = CHR ''+''
         \<and> (0 < n \<longrightarrow> snd (pass_start (\<lambda>n. picky_world) f t n ?s1 ?c1) = ?c1)"
    by (rule Suc.IH) simp_all
  show ?case
  proof (cases n)
    case 0
    then show ?thesis unfolding eq by simp
  next
    case (Suc m)
    then show ?thesis unfolding eq using IH by simp
  qed
qed

lemma picky_continues:
  assumes "code \<noteq> []" and "last code = CHR ''+''"
  shows "continues (snd (pass_outcome (\<lambda>n. picky_world) f t n s code))"
proof -
  obtain sn cn where p: "pass_start (\<lambda>n. picky_world) f t n s code = (sn, cn)"
    by (cases "pass_start (\<lambda>n. picky_world) f t n s code")
  with picky_pass_start [OF assms, of f t n s] have "cn \<noteq> []" "last cn = CHR ''+''" by simp_all
  from picky_iteration [OF this] p show ?thesis by (simp add: pass_outcome_def)
qed

text \<open>
  An example in the picky world, whose parser accepts most texts: the run that starts with a
  text ending in a plus sign fails at the syntax gate in each of its ten passes and ends with
  \<^verbatim>\<open>best_effort\<close>, ten iterations and the last answer of the agent, although a pass on the text
  \<^verbatim>\<open>x = 1\<close> in the same world does not end in a \<^verbatim>\<open>continue\<close>.
\<close>

theorem perfect_loop_is_bounded_witness:
  "continues (snd (pass_outcome (\<lambda>n. picky_world) ''a.py'' ''add one'' 9
                     (init False Map.empty) ''def f(x): return x+''))
   \<and> snd (perfect_loop (\<lambda>n. picky_world) (init False Map.empty)
            \<lparr>filename = ''a.py'', content = ''def f(x): return x+''\<rparr> ''add one'')
       = Inr (best_effort ''a.py'' ''def f(x): return x +'' 10)
   \<and> fix_attempts (fst (perfect_loop (\<lambda>n. picky_world) (init False Map.empty)
            \<lparr>filename = ''a.py'', content = ''def f(x): return x+''\<rparr> ''add one'')) = 10
   \<and> \<not> continues (snd (iteration picky_world (init False Map.empty)
                          ''a.py'' ''add one'' ''x = 1''))"
proof -
  let ?env = "\<lambda>n::nat. picky_world"
  let ?s = "init False Map.empty"
  let ?info = "\<lparr>filename = ''a.py'', content = ''def f(x): return x+''\<rparr>"
  have c: "''def f(x): return x+'' \<noteq> []" "last ''def f(x): return x+'' = CHR ''+''"
    by simp_all
  have m: "max_fix_attempts ?s = 10" by (simp add: init_def)
  have z: "?s\<lparr>fix_attempts := 0\<rparr> = ?s" by (simp add: init_def)
  have H: "\<forall>n<max_fix_attempts ?s.
      continues (snd (pass_outcome ?env (filename ?info) ''add one'' n
                        (?s\<lparr>fix_attempts := 0\<rparr>) (content ?info)))"
    using picky_continues [OF c] by simp
  note second = perfect_loop_is_bounded
    [of ?env ?s ?info "''add one''", THEN conjunct2, THEN conjunct1, THEN mp, OF H]
  have l: "snd (pass_start ?env ''a.py'' ''add one'' 10 ?s ''def f(x): return x+'')
             = ''def f(x): return x +''"
    using picky_pass_start [OF c, of "''a.py''" "''add one''" 10 ?s] by simp
  have run: "snd (perfect_loop ?env ?s ?info ''add one'')
               = Inr (best_effort ''a.py'' ''def f(x): return x +'' 10)"
    using second [THEN conjunct1] l by (simp add: m z)
  have fa: "fix_attempts (fst (perfect_loop ?env ?s ?info ''add one'')) = 10"
    using second [THEN conjunct2, THEN conjunct1] m by simp
  have nine: "continues (snd (pass_outcome ?env ''a.py'' ''add one'' 9 ?s
                                ''def f(x): return x+''))"
    by (rule picky_continues [OF c])
  have clean: "\<not> continues (snd (iteration picky_world ?s ''a.py'' ''add one'' ''x = 1''))"
    by (simp add: iteration_def static_step_def execution_step_def tests_step_def
        security_step_def validate_syntax_def static_analysis_def execute_code_def
        execute_in_subprocess_def generate_tests_def run_tests_def run_tests_in_def
        pytest_result_def truthy_def security_scan_def dangerous_patterns_def log_def Let_def
        picky_world_def calm_world_def init_def AriaAgent_chat_def)
  show ?thesis using nine run fa clean by blast
qed

subsection \<open>Claim C2: an artifact that passes everything at once\<close>

lemma execute_code_result_indep:
  assumes "docker_client s1 = docker_client s2"
  shows "snd (execute_code w s1 code fname) = snd (execute_code w s2 code fname)"
  using assms
  by (auto simp: execute_code_def execute_in_docker_def execute_in_subprocess_def Let_def
      split: option.splits)

lemma run_tests_result_indep:
  "snd (run_tests w s1 code tests) = snd (run_tests w s2 code tests)"
  by (auto simp: run_tests_def run_tests_in_def Let_def
      split: option.splits reply.splits prod.splits)

lemma security_step_pass:
  assumes "security_scan code = []"
  shows "security_step w s fname code exec_res test_res =
           (log (Checked Security True) s,
            Perfect \<lparr>r_filename = fname, r_content = code, r_status = ''perfect'',
                     r_iterations = fix_attempts s,
                     r_tests_passed = Some (tests_count test_res),
                     r_execution_time = time exec_res,
                     r_security = Some ''clean''\<rparr>)"
  using assms by (simp add: security_step_def Let_def)

lemma tests_step_pass:
  assumes "generate_tests (aria_agent w) code task = Inr tests"
    and "snd (run_tests w s0 code tests) = Inr test_res"
    and "all_pass test_res"
    and "security_scan code = []"
  shows "\<exists>s'. tests_step w s fname task code exec_res =
           (s', Perfect \<lparr>r_filename = fname, r_content = code, r_status = ''perfect'',
                     r_iterations = fix_attempts s,
                     r_tests_passed = Some (tests_count test_res),
                     r_execution_time = time exec_res,
                     r_security = Some ''clean''\<rparr>)
         \<and> trace s' = trace s @ [Checked Tests True, Checked Security True]
         \<and> fix_attempts s' = fix_attempts s"
proof -
  obtain s1 r where rt: "run_tests w s code tests = (s1, r)"
    by (cases "run_tests w s code tests")
  have "r = Inr test_res"
    using rt assms(2) run_tests_result_indep [of w s code tests s0] by simp
  moreover note fr = run_tests_frame [OF rt]
  ultimately show ?thesis
    using assms(1,3,4) rt
    by (simp add: tests_step_def Let_def security_step_pass)
qed

lemma execution_step_pass:
  assumes "snd (execute_code w s0 code fname) = Inr exec_res"
    and "docker_client s0 = docker_client s"
    and "success exec_res"
    and "generate_tests (aria_agent w) code task = Inr tests"
    and "snd (run_tests w s0 code tests) = Inr test_res"
    and "all_pass test_res"
    and "security_scan code = []"
  shows "\<exists>s'. execution_step w s fname task code =
           (s', Perfect \<lparr>r_filename = fname, r_content = code, r_status = ''perfect'',
                     r_iterations = fix_attempts s,
                     r_tests_passed = Some (tests_count test_res),
                     r_execution_time = time exec_res,
                     r_security = Some ''clean''\<rparr>)
         \<and> trace s' = trace s @ [Checked Execution True, Checked Tests True, Checked Security True]
         \<and> fix_attempts s' = fix_attempts s"
proof -
  obtain s1 r where ec: "execute_code w s code fname = (s1, r)"
    by (cases "execute_code w s code fname")
  have r: "r = Inr exec_res"
    using ec assms(1) execute_code_result_indep [OF assms(2), of w code fname] by simp
  note fr = execute_code_frame [OF ec]
  from tests_step_pass [OF assms(4,5,6,7), of "log (Checked Execution True) s1" fname exec_res]
  obtain s' where
    ts: "tests_step w (log (Checked Execution True) s1) fname task code exec_res =
           (s', Perfect \<lparr>r_filename = fname, r_content = code, r_status = ''perfect'',
                     r_iterations = fix_attempts (log (Checked Execution True) s1),
                     r_tests_passed = Some (tests_count test_res),
                     r_execution_time = time exec_res,
                     r_security = Some ''clean''\<rparr>)"
      "trace s' = trace (log (Checked Execution True) s1) @ [Checked Tests True, Checked Security True]"
      "fix_attempts s' = fix_attempts (log (Checked Execution True) s1)"
    by blast
  show ?thesis
    using ec r fr ts assms(3)
    by (simp add: execution_step_def Let_def)
qed

text \<open>
  Claim C2. Let the budget be positive (it is ten after \<^verbatim>\<open>__init__\<close>) and let the content of the
  artifact, in the world of the first iteration, pass \<^verbatim>\<open>validate_syntax\<close>, \<^verbatim>\<open>static_analysis\<close>
  and \<^verbatim>\<open>security_scan\<close>, run successfully in \<^verbatim>\<open>execute_code\<close>, and pass \<^verbatim>\<open>run_tests\<close> on the
  tests that \<^verbatim>\<open>generate_tests\<close> returns. Then \<^verbatim>\<open>perfect_loop\<close> returns the unchanged content with
  status \<^verbatim>\<open>perfect\<close> and iteration count 0; the trace holds the five passed gates and no fix
  request.
\<close>

theorem clean_artifact_is_perfect_at_once:
  assumes "0 < max_fix_attempts s"
    and "validate_syntax (ast_parse (env 0)) (content info) = Inr syntax_res"
    and "valid syntax_res"
    and "static_analysis (black_format_str (env 0)) (autopep8_fix_code (env 0)) (content info) = []"
    and "security_scan (content info) = []"
    and "snd (execute_code (env 0) s (content info) (filename info)) = Inr exec_res"
    and "success exec_res"
    and "generate_tests (aria_agent (env 0)) (content info) task = Inr tests"
    and "snd (run_tests (env 0) s (content info) tests) = Inr test_res"
    and "all_pass test_res"
  shows "\<exists>s'. perfect_loop env s info task =
           (s', Inr \<lparr>r_filename = filename info, r_content = content info,
                     r_status = ''perfect'', r_iterations = 0,
                     r_tests_passed = Some (tests_count test_res),
                     r_execution_time = time exec_res,
                     r_security = Some ''clean''\<rparr>)
         \<and> trace s' = trace s @ passed 5
         \<and> fix_requests (passed 5) = 0
         \<and> fix_attempts s' = 0"
proof -
  let ?s0 = "s\<lparr>fix_attempts := 0\<rparr>"
  let ?s1 = "log (Checked Static True) (log (Checked Syntax True) ?s0)"
  let ?res = "\<lparr>r_filename = filename info, r_content = content info,
                     r_status = ''perfect'', r_iterations = 0,
                     r_tests_passed = Some (tests_count test_res),
                     r_execution_time = time exec_res,
                     r_security = Some ''clean''\<rparr>"
  have dc: "docker_client s = docker_client ?s1" by simp
  from execution_step_pass [OF assms(6) dc assms(7,8,9,10,5)]
  obtain s' where
    es: "execution_step (env 0) ?s1 (filename info) task (content info) = (s', Perfect ?res)"
      "trace s' = trace ?s1 @ [Checked Execution True, Checked Tests True, Checked Security True]"
      "fix_attempts s' = fix_attempts ?s1"
    by auto
  have it: "iteration (env 0) ?s0 (filename info) task (content info) = (s', Perfect ?res)"
    using assms(2,3,4) es(1) by (simp add: iteration_def static_step_def Let_def)
  have lt: "fix_attempts ?s0 < max_fix_attempts ?s0" using assms(1) by simp
  have "perfect_while env ?s0 (filename info) task (content info) = (s', Inr ?res)"
    using perfect_while_step [where env = env, OF lt] it by simp
  then have run: "perfect_loop env s info task = (s', Inr ?res)"
    by (simp add: perfect_loop_def)
  have tr: "trace s' = trace s @ passed 5" using es(2) by (simp add: passed_explicit)
  have nf: "fix_requests (passed 5) = 0" by (simp add: passed_explicit fix_requests_def)
  have fa: "fix_attempts s' = 0" using es(3) by simp
  show ?thesis using run tr nf fa by blast
qed

theorem clean_artifact_is_perfect_at_once_witness:
  "\<exists>s'. perfect_loop (\<lambda>n. calm_world) (init False Map.empty)
          \<lparr>filename = ''a.py'', content = ''print(1)''\<rparr> ''print one'' =
           (s', Inr \<lparr>r_filename = ''a.py'', r_content = ''print(1)'',
                     r_status = ''perfect'', r_iterations = 0,
                     r_tests_passed = Some 0,
                     r_execution_time = Some 0,
                     r_security = Some ''clean''\<rparr>)
         \<and> trace s' = passed 5 \<and> fix_attempts s' = 0"
proof -
  let ?env = "\<lambda>n::nat. calm_world"
  let ?s = "init False Map.empty"
  let ?info = "\<lparr>filename = ''a.py'', content = ''print(1)''\<rparr>"
  let ?er = "\<lparr>success = True, exec_output = Some [], exec_errors = None, time = Some 0\<rparr>"
  let ?tr = "\<lparr>all_pass = True, tests_count = 0, failures = None, tests_output = None\<rparr>"
  have a1: "0 < max_fix_attempts ?s" by (simp add: init_def)
  have a2: "validate_syntax (ast_parse (?env 0)) (content ?info)
              = Inr \<lparr>valid = True, errors = []\<rparr>"
    by (simp add: validate_syntax_def calm_world_def)
  have a3: "valid \<lparr>valid = True, errors = []\<rparr>" by simp
  have a4: "static_analysis (black_format_str (?env 0)) (autopep8_fix_code (?env 0))
              (content ?info) = []"
    by (simp add: static_analysis_def calm_world_def)
  have a5: "security_scan (content ?info) = []"
    by (simp add: security_scan_def dangerous_patterns_def)
  have a6: "snd (execute_code (?env 0) ?s (content ?info) (filename ?info)) = Inr ?er"
    by (simp add: execute_code_def execute_in_subprocess_def calm_world_def init_def Let_def)
  have a7: "success ?er" by simp
  have a8: "generate_tests (aria_agent (?env 0)) (content ?info) ''print one'' = Inr (Str [])"
    by (simp add: generate_tests_def calm_world_def)
  have a9: "snd (run_tests (?env 0) ?s (content ?info) (Str [])) = Inr ?tr"
    by (simp add: run_tests_def truthy_def)
  have a10: "all_pass ?tr" by simp
  from clean_artifact_is_perfect_at_once [OF a1 a2 a3 a4 a5 a6 a7 a8 a9 a10]
  obtain s' where
    r: "perfect_loop ?env ?s ?info ''print one'' =
           (s', Inr \<lparr>r_filename = ''a.py'', r_content = ''print(1)'',
                     r_status = ''perfect'', r_iterations = 0,
                     r_tests_passed = Some 0,
                     r_execution_time = Some 0,
                     r_security = Some ''clean''\<rparr>)"
      "trace s' = trace ?s @ passed 5" "fix_attempts s' = 0"
    by auto
  have "trace ?s = []" by (simp add: init_def)
  with r show ?thesis by auto
qed

subsection \<open>Further properties of the loop and its parts\<close>

text \<open>
  Whatever \<^verbatim>\<open>perfect_loop\<close> returns carries the file name it was given and an iteration count
  within the budget, and its status is \<^verbatim>\<open>perfect\<close>, with a content in which the security scan
  finds nothing, or \<^verbatim>\<open>best_effort\<close>, with the budget used up.
\<close>

theorem returned_result_is_perfect_or_best_effort:
  assumes "perfect_loop env s info task = (s', Inr res)"
  shows "r_filename res = filename info
         \<and> r_iterations res \<le> max_fix_attempts s
         \<and> (r_status res = ''perfect'' \<and> security_scan (r_content res) = []
            \<or> r_status res = ''best_effort'' \<and> r_iterations res = max_fix_attempts s)"
proof -
  from assms have w: "perfect_while env (s\<lparr>fix_attempts := 0\<rparr>) (filename info) task
                        (content info) = (s', Inr res)"
    by (simp add: perfect_loop_def)
  from perfect_while_invariant [OF w] show ?thesis by auto
qed

lemmas loop_defs =
  iteration_def static_step_def execution_step_def tests_step_def security_step_def
  validate_syntax_def static_analysis_def execute_code_def execute_in_subprocess_def
  execute_in_docker_def generate_tests_def run_tests_def truthy_def security_scan_def
  dangerous_patterns_def log_def Let_def

theorem returned_result_is_perfect_or_best_effort_witness:
  "snd (perfect_loop (\<lambda>n. calm_world) (init False Map.empty)
        \<lparr>filename = ''a.py'', content = ''print(1)''\<rparr> ''t'')
     = Inr \<lparr>r_filename = ''a.py'', r_content = ''print(1)'', r_status = ''perfect'',
            r_iterations = 0, r_tests_passed = Some 0, r_execution_time = Some 0,
            r_security = Some ''clean''\<rparr>
   \<and> security_scan ''print(1)'' = []"
proof -
  let ?s = "init False Map.empty"
  let ?info = "\<lparr>filename = ''a.py'', content = ''print(1)''\<rparr>"
  let ?res = "\<lparr>r_filename = ''a.py'', r_content = ''print(1)'', r_status = ''perfect'',
            r_iterations = 0, r_tests_passed = Some 0, r_execution_time = Some 0,
            r_security = Some ''clean''\<rparr>"
  have run: "snd (perfect_loop (\<lambda>n. calm_world) ?s ?info ''t'') = Inr ?res"
    by (simp add: perfect_loop_def perfect_while.simps loop_defs calm_world_def init_def)
  then have "perfect_loop (\<lambda>n. calm_world) ?s ?info ''t''
               = (fst (perfect_loop (\<lambda>n. calm_world) ?s ?info ''t''), Inr ?res)"
    by (metis prod.collapse)
  from returned_result_is_perfect_or_best_effort [OF this] run
  show ?thesis by simp
qed

text \<open>
  \<^verbatim>\<open>run_tests\<close> with no tests (an empty text, an empty mapping or \<^verbatim>\<open>None\<close>) reports that all
  tests pass, with count 0, and touches no file.
\<close>

theorem no_tests_is_a_pass:
  assumes "\<not> truthy tests"
  shows "run_tests w s code tests =
           (s, Inr \<lparr>all_pass = True, tests_count = 0, failures = None, tests_output = None\<rparr>)"
  using assms by (simp add: run_tests_def)

theorem no_tests_is_a_pass_witness:
  "\<not> truthy (Str []) \<and>
   run_tests calm_world (init False Map.empty) ''print(1)'' (Str []) =
     (init False Map.empty,
      Inr \<lparr>all_pass = True, tests_count = 0, failures = None, tests_output = None\<rparr>)"
proof -
  have a: "\<not> truthy (Str [])" by (simp add: truthy_def)
  from no_tests_is_a_pass [OF a] a show ?thesis by simp
qed

end
